theory Spec2Isabelle
  imports Main "HOL-Library.Word" "HOL-Library.DAList" "HOL-Library.Sublist"
begin

section \<open>Common data\<close>

text \<open>
  A JavaScript string is a sequence of UTF-16 code units: \<open>length\<close> counts code units and
  \<open>slice\<close> cuts between them.  Free-form text (tool output, prompts, assistant text) is
  modelled as a list of 16-bit words.  Identifiers and fixed tags (session ids, tool-use ids,
  question ids, message types) are written as HOL strings.
\<close>

type_synonym jstring = "16 word list"

text \<open>A JSON value, as \<open>JSON.parse\<close> returns it.\<close>

datatype json =
    JNull
  | JBool bool
  | JNum int
  | JStr string
  | JArr "json list"
  | JObj "(string \<times> json) list"

text \<open>\<open>Error\<close> objects: the \<open>message\<close> of the object, by the kind of error.\<close>

datatype exn =
    TypeError string
  | SyntaxError string
  | Error string

text \<open>
  What a \<open>throw\<close> carries.  The runtime and the code of the server throw \<open>Error\<close> objects;
  a stream can throw any value: \<open>undefined\<close>, or \<open>null\<close>, a primitive, an array or an
  object (a value as \<open>JSON.parse\<close> returns it).
\<close>

datatype thrown =
    ThrownUndefined
  | ThrownValue json
  | ThrownError exn

text \<open>\<open>x || ""\<close> on an optional string: \<open>null\<close>, \<open>undefined\<close> and the empty string give \<open>""\<close>.\<close>

definition or_empty :: "string option \<Rightarrow> string" where
  "or_empty x = (case x of None \<Rightarrow> [] | Some s \<Rightarrow> s)"

text \<open>Truthiness of an optional string: present and not empty.\<close>

definition truthy_str :: "string option \<Rightarrow> bool" where
  "truthy_str x = (case x of None \<Rightarrow> False | Some s \<Rightarrow> s \<noteq> [])"

text \<open>
  \<open>s.slice(a, b)\<close> for \<open>0 \<le> a \<le> b\<close>: the code units from index \<open>a\<close> up to, not including,
  index \<open>b\<close>, both clamped to the length of \<open>s\<close>.
\<close>

definition slice :: "'a list \<Rightarrow> nat \<Rightarrow> nat \<Rightarrow> 'a list" where
  "slice s a b = take (b - a) (drop a s)"

text \<open>
  Reading the property \<open>k\<close> (one of \<open>type\<close>, \<open>pubkey\<close>, \<open>n\<close>, \<open>c\<close>, \<open>message\<close>) of a value:
  \<open>null\<close> throws, an object gives its property or \<open>undefined\<close>, every other value gives
  \<open>undefined\<close>.
\<close>

fun get_prop :: "json \<Rightarrow> string \<Rightarrow> exn + json option" where
  "get_prop JNull k = Inl (TypeError ''Cannot read properties of null'')"
| "get_prop (JObj kvs) k = Inr (map_of kvs k)"
| "get_prop _ k = Inr None"

text \<open>Truthiness of a value that may be \<open>undefined\<close>.\<close>

fun truthy :: "json option \<Rightarrow> bool" where
  "truthy None = False"
| "truthy (Some JNull) = False"
| "truthy (Some (JBool b)) = b"
| "truthy (Some (JNum n)) = (n \<noteq> 0)"
| "truthy (Some (JStr s)) = (s \<noteq> [])"
| "truthy (Some (JArr xs)) = True"
| "truthy (Some (JObj kvs)) = True"

text \<open>A string literal as JavaScript text.\<close>

definition lit :: "string \<Rightarrow> jstring" where
  "lit t = map (\<lambda>c. of_nat (of_char c)) t"

text \<open>\<open>x || d\<close> on an optional string.\<close>

definition or_default :: "string option \<Rightarrow> string \<Rightarrow> string" where
  "or_default x d = (if truthy_str x then or_empty x else d)"

text \<open>\<open>x?.k\<close> on a value that may be \<open>undefined\<close>.\<close>

definition opt_prop :: "json option \<Rightarrow> string \<Rightarrow> json option" where
  "opt_prop x k = (case x of Some (JObj kvs) \<Rightarrow> map_of kvs k | _ \<Rightarrow> None)"

text \<open>\<open>s.replace(pat, "")\<close> with a string pattern: the first occurrence is removed.\<close>

fun remove_first :: "string \<Rightarrow> string \<Rightarrow> string" where
  "remove_first pat [] = []"
| "remove_first pat (c # cs) =
     (if prefix pat (c # cs) then drop (length pat) (c # cs) else c # remove_first pat cs)"

text \<open>\<open>parts.join("\n")\<close>.\<close>

fun join_lines :: "jstring list \<Rightarrow> jstring" where
  "join_lines [] = []"
| "join_lines [t] = t"
| "join_lines (t # ts) = t @ [10] @ join_lines ts"

text \<open>\<open>String(n)\<close> for an integer \<open>n\<close> (below \<open>10^21\<close> in size): its decimal digits.\<close>

function decimal_nat :: "nat \<Rightarrow> string" where
  "decimal_nat n =
     (if n < 10 then [char_of (48 + n)]
      else decimal_nat (n div 10) @ [char_of (48 + n mod 10)])"
  by pat_completeness auto
termination
  by (relation "measure id") auto

declare decimal_nat.simps [simp del]

definition decimal :: "int \<Rightarrow> string" where
  "decimal n = (if n < 0 then CHR ''-'' # decimal_nat (nat (- n)) else decimal_nat (nat n))"



section \<open>Protocol (protocol.ts)\<close>

record QuestionOption =
  opt_label :: string
  opt_description :: "string option"

record QuestionItem =
  q_question :: jstring
  q_header :: "string option"
  q_options :: "QuestionOption list"
  q_multiSelect :: "bool option"

datatype role = User | Assistant | Tool_call | Tool_result | Question

record HistoryEntry =
  role :: role
  content :: jstring
  toolName :: "string option"
  toolInput :: "json option"
  toolUseId :: "string option"
  toolOutput :: "jstring option"
  timestamp :: string
  questionId :: "string option"
  questions :: "QuestionItem list option"
  emailPreview :: "json option"
  answered :: "bool option"

text \<open>
  The server messages the session engine sends.  The last argument of every constructor
  but \<open>ErrorMsg\<close> is the \<open>sessionId\<close> field.  The \<open>message\<close> of an error event is a string by
  its type; it holds whatever value the sender puts there.
\<close>

datatype ServerMessage =
    TextMsg jstring string
  | QuestionMsg string "QuestionItem list" string
  | SessionCreated string string
  | ToolProgress string string int string
  | Compacting bool string
  | CompactBoundary string int string
  | TaskNotification string string "string option" json "string option" string
  | Todos "json list" string
  | ToolCall string "json option" string string
  | BashBackgrounded string string string string
  | ToolResultChunk string nat jstring bool string
  | ToolResult string jstring string
  | ResultMsg jstring string json
  | ErrorMsg json

text \<open>History entries by role.\<close>

definition new_entry :: "role \<Rightarrow> jstring \<Rightarrow> string \<Rightarrow> HistoryEntry" where
  "new_entry r c now =
     \<lparr>role = r, content = c, toolName = None, toolInput = None, toolUseId = None,
      toolOutput = None, timestamp = now, questionId = None, questions = None,
      emailPreview = None, answered = None\<rparr>"

definition tool_call_entry :: "string \<Rightarrow> json option \<Rightarrow> string \<Rightarrow> string \<Rightarrow> HistoryEntry" where
  "tool_call_entry name input tid now =
     (new_entry Tool_call [] now)\<lparr>toolName := Some name, toolInput := input, toolUseId := Some tid\<rparr>"

definition tool_result_entry :: "string \<Rightarrow> jstring \<Rightarrow> string \<Rightarrow> HistoryEntry" where
  "tool_result_entry tid out now =
     (new_entry Tool_result [] now)\<lparr>toolUseId := Some tid, toolOutput := Some out\<rparr>"

section \<open>The session store (session-store.ts)\<close>

text \<open>
  A history file (\<open>~/.claude-assistant/history/<id>.json\<close>) either parses to an array of
  entries or makes \<open>JSON.parse\<close> throw.
\<close>

datatype hfile = Unparsable | Entries "HistoryEntry list"

text \<open>The history directory: its files by name, in the order \<open>readdir\<close> lists them.\<close>

type_synonym history_dir = "(string, hfile) alist"

definition historyFile :: "string \<Rightarrow> string" where
  "historyFile sid = sid @ ''.json''"

definition appendHistory :: "string \<Rightarrow> HistoryEntry \<Rightarrow> history_dir \<Rightarrow> exn + history_dir" where
  "appendHistory sid entry d =
     (case DAList.lookup d (historyFile sid) of
        None \<Rightarrow> Inr (DAList.update (historyFile sid) (Entries [entry]) d)
      | Some Unparsable \<Rightarrow> Inl (SyntaxError ''Unexpected token in JSON'')
      | Some (Entries entries) \<Rightarrow>
          Inr (DAList.update (historyFile sid) (Entries (entries @ [entry])) d))"

fun mark_first :: "string \<Rightarrow> HistoryEntry list \<Rightarrow> HistoryEntry list option" where
  "mark_first qid [] = None"
| "mark_first qid (e # es) =
     (if role e = Question \<and> questionId e = Some qid
      then Some (e\<lparr>answered := Some True\<rparr> # es)
      else map_option ((#) e) (mark_first qid es))"

definition markQuestionAnswered :: "string \<Rightarrow> string \<Rightarrow> history_dir \<Rightarrow> history_dir" where
  "markQuestionAnswered sid qid d =
     (case DAList.lookup d (historyFile sid) of
        Some (Entries entries) \<Rightarrow>
          (case mark_first qid entries of
             Some entries' \<Rightarrow> DAList.update (historyFile sid) (Entries entries') d
           | None \<Rightarrow> d)
      | _ \<Rightarrow> d)"


definition result_ids :: "HistoryEntry list \<Rightarrow> string set" where
  "result_ids entries =
     set (map (\<lambda>e. or_empty (toolUseId e))
            (filter (\<lambda>e. role e = Tool_result \<and> truthy_str (toolUseId e)) entries))"

definition needs_result :: "string set \<Rightarrow> HistoryEntry \<Rightarrow> bool" where
  "needs_result resultIds entry =
     (role entry = Tool_call \<and> truthy_str (toolUseId entry)
      \<and> or_empty (toolUseId entry) \<notin> resultIds)"

definition empty_result :: "string \<Rightarrow> HistoryEntry \<Rightarrow> HistoryEntry" where
  "empty_result now e =
     (new_entry Tool_result [] now)\<lparr>toolUseId := toolUseId e, toolOutput := Some []\<rparr>"

lemma drop_step: "i < length xs \<Longrightarrow> drop i xs = xs ! i # drop (Suc i) xs"
  by (simp add: Cons_nth_drop_Suc)

lemma needs_result_call: "needs_result rs e \<Longrightarrow> role e = Tool_call"
  by (simp add: needs_result_def)

lemma empty_result_role [simp]: "role (empty_result now e) = Tool_result"
  by (simp add: empty_result_def new_entry_def)

function cleanup_loop ::
  "(nat \<Rightarrow> string) \<Rightarrow> string set \<Rightarrow> nat \<Rightarrow> HistoryEntry list \<Rightarrow> bool \<Rightarrow> HistoryEntry list \<times> bool" where
  "cleanup_loop clock resultIds i entries modified =
     (if i < length entries
      then if needs_result resultIds (entries ! i)
           then cleanup_loop clock resultIds (i + 1)
                  (entries @ [empty_result (clock i) (entries ! i)]) True
           else cleanup_loop clock resultIds (i + 1) entries modified
      else (entries, modified))"
  by pat_completeness auto
termination
proof (relation "measure (\<lambda>(clock, resultIds, i, entries, modified).
          (length entries - i) + length (filter (\<lambda>e. role e = Tool_call) (drop i entries)))",
       goal_cases)
  case 1
  show ?case by simp
next
  case (2 clock resultIds i entries modified)
  then show ?case
    by (simp add: drop_step [of i entries] needs_result_call)
next
  case (3 clock resultIds i entries modified)
  then show ?case
    by (simp add: drop_step [of i entries]) arith
qed

declare cleanup_loop.simps [simp del]

definition cleanup_entries :: "(nat \<Rightarrow> string) \<Rightarrow> HistoryEntry list \<Rightarrow> HistoryEntry list \<times> bool" where
  "cleanup_entries clock entries = cleanup_loop clock (result_ids entries) 0 entries False"

definition endsWith_json :: "string \<Rightarrow> bool" where
  "endsWith_json f = suffix ''.json'' f"

fun cleanup_files ::
  "(nat \<Rightarrow> string) \<Rightarrow> string list \<Rightarrow> history_dir \<times> string list \<Rightarrow> history_dir \<times> string list" where
  "cleanup_files clock [] dw = dw"
| "cleanup_files clock (f # fs) (d, written) =
     cleanup_files clock fs
       (case DAList.lookup d f of
          Some (Entries entries) \<Rightarrow>
            (if snd (cleanup_entries clock entries)
             then (DAList.update f (Entries (fst (cleanup_entries clock entries))) d, written @ [f])
             else (d, written))
        | _ \<Rightarrow> (d, written))"

definition cleanupPendingToolCalls :: "(nat \<Rightarrow> string) \<Rightarrow> history_dir \<Rightarrow> history_dir \<times> string list" where
  "cleanupPendingToolCalls clock d =
     cleanup_files clock (filter endsWith_json (map fst (DAList.impl_of d))) (d, [])"

definition calls_closed :: "HistoryEntry list \<Rightarrow> bool" where
  "calls_closed entries =
     (\<forall>e \<in> set entries. role e = Tool_call \<and> truthy_str (toolUseId e) \<longrightarrow>
        (\<exists>r \<in> set entries. role r = Tool_result \<and> toolUseId r = toolUseId e))"

section \<open>The session engine (claude-session.ts)\<close>

text \<open>
  A pending question: its id, the \<open>resolve\<close> callback of the promise the tool call awaits
  (a handle: calling it is recorded in \<open>resolve_calls\<close> below) and the question message
  kept for replay.
\<close>

record PendingQuestion =
  pq_questionId :: string
  pq_resolve :: nat
  pq_questionData :: "ServerMessage option"

text \<open>The user message \<open>injectMessage\<close> yields to \<open>streamInput\<close>: its text and its \<open>session_id\<close>.\<close>

datatype SDKUserMessage = UserMessage jstring string

text \<open>
  Calls of the session and todo store (\<open>remapSession(old, new)\<close>, \<open>saveSession\<close> with id,
  title and cwd, \<open>saveTodos\<close>, \<open>updateSessionActivity\<close> with id and preview).
\<close>

datatype store_call =
    RemapSession string string
  | SaveSession string jstring string
  | SaveTodos string "json list"
  | UpdateSessionActivity string jstring

text \<open>
  The state of one \<open>ClaudeSession\<close>, followed by the locals of \<open>runQuery\<close> that live across
  iterations of its loop, and by the collaborators the session acts on: the socket, the
  history directory, the session store and the SDK query object.  A JavaScript \<open>Map\<close> keeps
  one value per key in insertion order: an association list with distinct keys.  Calls
  that leave the engine (\<open>this.send\<close>, \<open>ws.send\<close>, the SDK's \<open>stopTask\<close> and
  \<open>streamInput\<close>, a promise's \<open>resolve\<close>, the session and todo store) are recorded in call
  order; the history directory is kept as data.
  The fields \<open>_ttsEnabled\<close>, \<open>_effort\<close>, \<open>_thinking\<close> and \<open>plugins\<close> only feed the options of
  \<open>query()\<close> and are left out, as is the timer of the bash watcher.
\<close>

record engine =
  cwd :: string
  sessionId :: "string option"
  pendingQuestions :: "(string, PendingQuestion) alist"
  abortController :: "bool option"
  activeQuery :: "nat option"
  questionCounter :: nat
  isRunning :: bool
  forkFromSessionId :: "string option"
  backgroundTaskToolUseIds :: "string set"
  taskIdToToolUseId :: "(string, string) alist"
  activeBashStream :: "string option"
  streamingText :: jstring
  lastPreview :: jstring
  replacesSessionId :: "string option"
  stoppedTasks :: "string set"
  currentText :: jstring
  promptLogged :: bool
  ws_open :: bool
  send_calls :: "ServerMessage list"
  wire :: "ServerMessage list"
  history :: history_dir
  store_calls :: "store_call list"
  activity_calls :: nat
  queries_created :: nat
  stopTask_calls :: "string list"
  streamInput_calls :: "SDKUserMessage list list"
  resolve_calls :: "(nat \<times> (string \<times> string) list) list"

text \<open>
  \<open>send(msg)\<close>: the message goes to the socket only while the socket is open.  Every call
  is recorded in \<open>send_calls\<close>; \<open>wire\<close> holds what reached \<open>ws.send\<close>.  The socket is an object
  handed to the constructor; its \<open>send\<close> is taken to accept every message and return.
\<close>

definition send :: "ServerMessage \<Rightarrow> engine \<Rightarrow> engine" where
  "send msg s =
     s\<lparr>send_calls := send_calls s @ [msg],
       wire := (if ws_open s then wire s @ [msg] else wire s)\<rparr>"

subsection \<open>Tool results, whole or in chunks\<close>

definition CHUNK_THRESHOLD :: nat where
  "CHUNK_THRESHOLD = 500"

definition CHUNK_SIZE :: nat where
  "CHUNK_SIZE = 200"

text \<open>
  \<open>for (let i = 0; i < output.length; i += CHUNK_SIZE)\<close> with \<open>chunkIdx++\<close>: the loop from
  index \<open>i\<close> and chunk number \<open>chunkIdx\<close> on.
\<close>

function chunk_loop :: "string \<Rightarrow> jstring \<Rightarrow> nat \<Rightarrow> nat \<Rightarrow> engine \<Rightarrow> engine" where
  "chunk_loop tid out i chunkIdx s =
     (if i < length out
      then chunk_loop tid out (i + CHUNK_SIZE) (chunkIdx + 1)
             (send (ToolResultChunk tid chunkIdx (slice out i (i + CHUNK_SIZE))
                      (i + CHUNK_SIZE \<ge> length out) (or_empty (sessionId s))) s)
      else s)"
  by pat_completeness auto
termination
  by (relation "measure (\<lambda>(tid, out, i, chunkIdx, s). length out - i)")
     (auto simp: CHUNK_SIZE_def)

declare chunk_loop.simps [simp del]

text \<open>The branch on \<open>output.length > CHUNK_THRESHOLD\<close> that sends a tool result.\<close>

definition send_tool_result :: "string \<Rightarrow> jstring \<Rightarrow> engine \<Rightarrow> engine" where
  "send_tool_result tid out s =
     (if length out > CHUNK_THRESHOLD
      then chunk_loop tid out 0 0 s
      else send (ToolResult tid out (or_empty (sessionId s))) s)"

text \<open>Reading the fields of a chunk message.\<close>

fun chunk_content :: "ServerMessage \<Rightarrow> jstring" where
  "chunk_content (ToolResultChunk tid k c d sid) = c"
| "chunk_content _ = []"

fun chunk_done :: "ServerMessage \<Rightarrow> bool" where
  "chunk_done (ToolResultChunk tid k c d sid) = d"
| "chunk_done _ = False"

fun is_chunk :: "string \<Rightarrow> string \<Rightarrow> nat \<Rightarrow> ServerMessage \<Rightarrow> bool" where
  "is_chunk tid sid k (ToolResultChunk tid' k' c d sid') = (tid' = tid \<and> k' = k \<and> sid' = sid)"
| "is_chunk tid sid k _ = False"

text \<open>The messages passed to \<open>send\<close> between two states of the engine.\<close>

definition sent_between :: "engine \<Rightarrow> engine \<Rightarrow> ServerMessage list" where
  "sent_between s s' = drop (length (send_calls s)) (send_calls s')"

text \<open>
  The state of a session right after \<open>new ClaudeSession(ws, cwd, plugins)\<close>, with the socket
  open or not and the history directory as it stands.
\<close>

definition new_session :: "bool \<Rightarrow> string \<Rightarrow> history_dir \<Rightarrow> engine" where
  "new_session wsopen dir hist =
     \<lparr>cwd = dir, sessionId = None, pendingQuestions = DAList.empty, abortController = None,
      activeQuery = None, questionCounter = 0, isRunning = False,
      forkFromSessionId = None, backgroundTaskToolUseIds = {},
      taskIdToToolUseId = DAList.empty, activeBashStream = None, streamingText = [],
      lastPreview = [], replacesSessionId = None, stoppedTasks = {}, currentText = [],
      promptLogged = False, ws_open = wsopen, send_calls = [], wire = [], history = hist,
      store_calls = [], activity_calls = 0, queries_created = 0, stopTask_calls = [],
      streamInput_calls = [], resolve_calls = []\<rparr>"

subsection \<open>Questions, task stops and injected messages\<close>

text \<open>Sequencing: the continuation runs only if nothing was thrown.\<close>

definition andThen :: "engine \<times> exn option \<Rightarrow> (engine \<Rightarrow> engine \<times> exn option) \<Rightarrow> engine \<times> exn option" where
  "andThen r f = (case r of (s, None) \<Rightarrow> f s | (s, Some e) \<Rightarrow> (s, Some e))"

text \<open>\<open>appendHistory(sid, entry)\<close> on the history directory of the engine.\<close>

definition append_to :: "string \<Rightarrow> HistoryEntry \<Rightarrow> engine \<Rightarrow> engine \<times> exn option" where
  "append_to sid e s =
     (case appendHistory sid e (history s) of
        Inl err \<Rightarrow> (s, Some err)
      | Inr h \<Rightarrow> (s\<lparr>history := h\<rparr>, None))"

text \<open>\<open>if (this.sessionId) appendHistory(this.sessionId, entry)\<close>.\<close>

definition log_history :: "HistoryEntry \<Rightarrow> engine \<Rightarrow> engine \<times> exn option" where
  "log_history e s =
     (if truthy_str (sessionId s) then append_to (or_empty (sessionId s)) e s else (s, None))"

text \<open>
  The part of the \<open>canUseTool\<close> callback that asks the user (\<open>AskUserQuestion\<close> and
  \<open>ExitPlanMode\<close>), from the new question id to the promise that waits for the answer:
  the id \<open>q\<close> followed by the next value of the counter from the counter of this object, the question event, the history
  entry and the entry in the table of pending questions.  The list of questions is the one
  the callback has built from the tool input; the \<open>resolve\<close> function of the new promise
  is identified by the number of the question.
\<close>

definition canUseTool_question :: "string \<Rightarrow> QuestionItem list \<Rightarrow> engine \<Rightarrow> engine \<times> exn option" where
  "canUseTool_question now qs s =
     (let n = questionCounter s + 1;
          qId = ''q'' @ decimal_nat n;
          s1 = s\<lparr>questionCounter := n\<rparr>;
          questionMsg = QuestionMsg qId qs (or_empty (sessionId s1))
      in andThen
           (log_history
              ((new_entry Question [] now)\<lparr>questionId := Some qId, questions := Some qs\<rparr>)
              (send questionMsg s1))
           (\<lambda>t. (t\<lparr>pendingQuestions :=
                       DAList.update qId
                         \<lparr>pq_questionId = qId, pq_resolve = n, pq_questionData = Some questionMsg\<rparr>
                         (pendingQuestions t)\<rparr>, None)))"

text \<open>
  \<open>resolveQuestion(questionId, answers)\<close>; the answers are a \<open>Record<string, string>\<close>.
\<close>

type_synonym answers = "(string \<times> string) list"

definition resolveQuestion :: "string \<Rightarrow> answers \<Rightarrow> engine \<Rightarrow> engine" where
  "resolveQuestion qid ans s =
     (case DAList.lookup (pendingQuestions s) qid of
        None \<Rightarrow> s
      | Some pending \<Rightarrow>
          (let s' = s\<lparr>resolve_calls := resolve_calls s @ [(pq_resolve pending, ans)],
                       pendingQuestions := DAList.delete qid (pendingQuestions s)\<rparr>
           in if truthy_str (sessionId s')
              then s'\<lparr>history := markQuestionAnswered (or_empty (sessionId s')) qid (history s')\<rparr>
              else s'))"

definition sdkTaskId_for :: "string \<Rightarrow> (string, string) alist \<Rightarrow> string" where
  "sdkTaskId_for taskId m =
     (case find (\<lambda>(agentId, tu). tu = taskId) (DAList.impl_of m) of
        Some (agentId, tu) \<Rightarrow> agentId
      | None \<Rightarrow> taskId)"

definition stopTask :: "string \<Rightarrow> engine \<Rightarrow> engine" where
  "stopTask taskId s =
     (if taskId \<in> stoppedTasks s then s
      else (let s' = s\<lparr>stoppedTasks := insert taskId (stoppedTasks s)\<rparr>
            in if activeQuery s' = None then s'
               else s'\<lparr>stopTask_calls :=
                          stopTask_calls s' @ [sdkTaskId_for taskId (taskIdToToolUseId s')]\<rparr>))"


subsection \<open>The query loop\<close>

text \<open>
  The two regular expressions the loop matches against tool output: one finds the
  background id and the output file of a bash command moved to the background, the other
  the agent id of a background task.
\<close>

record platform =
  bg_match :: "jstring \<Rightarrow> (string \<times> string) option"
  agent_id_match :: "jstring \<Rightarrow> string option"

text \<open>The messages of the SDK's stream, with the fields the loop reads.\<close>

datatype content_part = TextPart jstring | OtherPart

text \<open>
  The \<open>content\<close> of a tool result: a string, an array of parts, or anything else, given by
  what \<open>JSON.stringify\<close> makes of it (\<open>undefined\<close> for a missing content).
\<close>

datatype tool_content =
    ContentString jstring
  | ContentArray "content_part list"
  | ContentOther "jstring option"

datatype content_block =
    TextBlock jstring
  | ToolUseBlock string string "json option"
  | ToolResultBlock "string option" tool_content
  | OtherBlock

datatype stream_event = TextDelta jstring | MessageStart | MessageDelta | OtherEvent

datatype SDKMessage =
    SystemInit string
  | SdkToolProgress "string option" "string option" "int option"
  | SystemStatus "string option"
  | SystemCompactBoundary "string option" "int option"
  | SystemTaskNotification "string option" "string option" "string option" "string option"
  | StreamEvent stream_event
  | AssistantMessage "content_block list option"
  | UserMessageSDK "content_block list option"
  | ResultMessage "jstring option" json
  | OtherMessage

text \<open>
  What the stream does next: it yields a message (with the time at which the loop handles
  it) or it throws.  The end of the list is the end of the stream.
\<close>

datatype stream_item = Yield string SDKMessage | Throw thrown

definition on_init :: "jstring \<Rightarrow> string option \<Rightarrow> string \<Rightarrow> string \<Rightarrow> engine \<Rightarrow> engine \<times> exn option" where
  "on_init prompt resumeSessionId now session_id s =
     (let s1 = send (SessionCreated session_id (cwd s)) (s\<lparr>sessionId := Some session_id\<rparr>);
          s2 = (if truthy_str (replacesSessionId s1)
                then s1\<lparr>store_calls := store_calls s1
                            @ [RemapSession (or_empty (replacesSessionId s1)) session_id],
                        replacesSessionId := None\<rparr>
                else if \<not> truthy_str resumeSessionId
                then s1\<lparr>store_calls := store_calls s1
                            @ [SaveSession session_id
                                 (take 50 prompt @ (if length prompt > 50 then lit ''...'' else []))
                                 (cwd s1)]\<rparr>
                else s1)
      in if \<not> promptLogged s2
         then andThen (append_to session_id (new_entry User prompt now) s2)
                (\<lambda>t. (t\<lparr>promptLogged := True\<rparr>, None))
         else (s2, None))"

definition on_tool_progress :: "string option \<Rightarrow> string option \<Rightarrow> int option \<Rightarrow> engine \<Rightarrow> engine" where
  "on_tool_progress tool_use_id tool_name elapsed s =
     send (ToolProgress (or_empty tool_use_id) (or_empty tool_name)
             (case elapsed of None \<Rightarrow> 0 | Some n \<Rightarrow> n) (or_empty (sessionId s))) s"

definition on_status :: "string option \<Rightarrow> engine \<Rightarrow> engine" where
  "on_status st s = send (Compacting (st = Some ''compacting'') (or_empty (sessionId s))) s"

definition on_compact_boundary ::
  "string \<Rightarrow> string option \<Rightarrow> int option \<Rightarrow> engine \<Rightarrow> engine \<times> exn option" where
  "on_compact_boundary now trigger pre_tokens s =
     (let pre = (case pre_tokens of None \<Rightarrow> 0 | Some n \<Rightarrow> n)
      in log_history
           (new_entry Assistant
              (lit (''[compact_boundary:'' @ decimal pre @ '':''
                    @ or_default trigger ''auto'' @ '']'')) now)
           (send (CompactBoundary (or_default trigger ''auto'') pre (or_empty (sessionId s))) s))"

definition on_task_notification ::
  "string \<Rightarrow> string option \<Rightarrow> string option \<Rightarrow> string option \<Rightarrow> string option
     \<Rightarrow> engine \<Rightarrow> engine \<times> exn option" where
  "on_task_notification now task_id st output_file summary s =
     (let sdkTaskId = or_empty task_id;
          originToolUseId =
            (if truthy_str (DAList.lookup (taskIdToToolUseId s) sdkTaskId)
             then DAList.lookup (taskIdToToolUseId s) sdkTaskId else None);
          s1 = (if originToolUseId \<noteq> None
                then s\<lparr>taskIdToToolUseId := DAList.delete sdkTaskId (taskIdToToolUseId s)\<rparr>
                else s)
      in log_history
           (new_entry Assistant
              (lit (''[Task '' @ (case st of None \<Rightarrow> ''undefined'' | Some t \<Rightarrow> t) @ ''] ''
                    @ or_empty summary)) now)
           (send (TaskNotification sdkTaskId (or_default st ''completed'')
                    (if truthy_str output_file then output_file else None)
                    (JStr (or_empty summary)) originToolUseId (or_empty (sessionId s1))) s1))"

definition on_stream_event :: "stream_event \<Rightarrow> engine \<Rightarrow> engine" where
  "on_stream_event ev s =
     (case ev of
        TextDelta t \<Rightarrow>
          send (TextMsg t (or_empty (sessionId s)))
            (s\<lparr>currentText := currentText s @ t, streamingText := streamingText s @ t\<rparr>)
      | _ \<Rightarrow> s)"

text \<open>One \<open>tool_use\<close> block of an assistant message.\<close>

definition on_tool_use :: "string \<Rightarrow> string \<Rightarrow> string \<Rightarrow> json option \<Rightarrow> engine \<Rightarrow> engine \<times> exn option" where
  "on_tool_use now tid name input s =
     (if name = ''AskUserQuestion'' then (s, None)
      else if name = ''TodoWrite'' then
        (case opt_prop input ''todos'' of
           Some (JArr todos) \<Rightarrow>
             (send (Todos todos (or_empty (sessionId s)))
                (if truthy_str (sessionId s)
                 then s\<lparr>store_calls := store_calls s @ [SaveTodos (or_empty (sessionId s)) todos]\<rparr>
                 else s), None)
         | _ \<Rightarrow> (s, None))
      else
        (let mcpName = remove_first ''mcp__reminder-tools__'' (remove_first ''mcp__tts-tools__'' name)
         in if mcpName = ''Speak'' \<or> mcpName = ''SendFile'' \<or> mcpName = ''ScheduleReminder''
            then log_history (tool_call_entry mcpName input tid now)
                   (send (ToolCall mcpName input tid (or_empty (sessionId s))) s)
            else
              (let s1 = send (ToolCall name input tid (or_empty (sessionId s))) s;
                   s2 = (if name = ''Bash''
                         then s1\<lparr>activeBashStream := Some ''/tmp/claude-bash-live.log''\<rparr> else s1);
                   s3 = (if name = ''Task'' \<and> truthy (opt_prop input ''run_in_background'')
                         then send (TaskNotification tid ''started'' None
                                      (case opt_prop input ''description'' of
                                         Some d \<Rightarrow> if truthy (Some d) then d
                                                   else JStr ''Background task''
                                       | None \<Rightarrow> JStr ''Background task'')
                                      None (or_empty (sessionId s2)))
                                (s2\<lparr>backgroundTaskToolUseIds :=
                                       insert tid (backgroundTaskToolUseIds s2)\<rparr>)
                         else s2)
               in log_history (tool_call_entry name input tid now) s3)))"

fun on_assistant_blocks :: "string \<Rightarrow> content_block list \<Rightarrow> engine \<Rightarrow> engine \<times> exn option" where
  "on_assistant_blocks now [] s = (s, None)"
| "on_assistant_blocks now (ToolUseBlock tid name input # bs) s =
     (case on_tool_use now tid name input s of
        (s', None) \<Rightarrow> on_assistant_blocks now bs s'
      | (s', Some e) \<Rightarrow> (s', Some e))"
| "on_assistant_blocks now (b # bs) s = on_assistant_blocks now bs s"

fun block_text :: "content_block \<Rightarrow> jstring option" where
  "block_text (TextBlock t) = Some t"
| "block_text _ = None"

definition on_assistant :: "string \<Rightarrow> content_block list option \<Rightarrow> engine \<Rightarrow> engine \<times> exn option" where
  "on_assistant now blocks s =
     (let s1 = s\<lparr>streamingText := []\<rparr>
      in case blocks of
           None \<Rightarrow> (s1, None)
         | Some bs \<Rightarrow>
             (let textParts = List.map_filter block_text bs
              in andThen
                   (if textParts \<noteq> []
                    then log_history (new_entry Assistant (concat textParts) now)
                           (s1\<lparr>lastPreview := take 200 (concat textParts),
                               activity_calls := activity_calls s1 + 1\<rparr>)
                    else (s1, None))
                   (on_assistant_blocks now bs)))"

fun part_text :: "content_part \<Rightarrow> jstring option" where
  "part_text (TextPart t) = Some t"
| "part_text OtherPart = None"

text \<open>
  The output text of a tool result; matching a regular expression against \<open>undefined\<close>
  throws.
\<close>

definition tool_output :: "tool_content \<Rightarrow> exn + jstring" where
  "tool_output c =
     (case c of
        ContentString t \<Rightarrow> Inr t
      | ContentArray parts \<Rightarrow> Inr (join_lines (List.map_filter part_text parts))
      | ContentOther (Some t) \<Rightarrow> Inr t
      | ContentOther None \<Rightarrow> Inl (TypeError ''Cannot read properties of undefined (reading match)''))"

text \<open>One \<open>tool_result\<close> block of a user message.\<close>

definition on_tool_result ::
  "platform \<Rightarrow> string \<Rightarrow> string option \<Rightarrow> tool_content \<Rightarrow> engine \<Rightarrow> engine \<times> exn option" where
  "on_tool_result pf now tool_use_id c s =
     (case tool_output c of
        Inl err \<Rightarrow> (s, Some err)
      | Inr out \<Rightarrow>
          (let tid = or_empty tool_use_id;
               s1 = (case bg_match pf out of
                       Some (bgTaskId, outputFile) \<Rightarrow>
                         (if activeBashStream s \<noteq> None
                          then (send (BashBackgrounded tid bgTaskId outputFile (or_empty (sessionId s)))
                                  (s\<lparr>activeBashStream := Some outputFile\<rparr>))
                                 \<lparr>taskIdToToolUseId := DAList.update bgTaskId tid (taskIdToToolUseId s)\<rparr>
                          else s\<lparr>activeBashStream := None\<rparr>)
                     | None \<Rightarrow> s\<lparr>activeBashStream := None\<rparr>);
               s2 = (if tid \<in> backgroundTaskToolUseIds s1
                     then (case agent_id_match pf out of
                             Some agentId \<Rightarrow>
                               s1\<lparr>backgroundTaskToolUseIds := backgroundTaskToolUseIds s1 - {tid},
                                   taskIdToToolUseId := DAList.update agentId tid (taskIdToToolUseId s1)\<rparr>
                           | None \<Rightarrow>
                               s1\<lparr>backgroundTaskToolUseIds := backgroundTaskToolUseIds s1 - {tid}\<rparr>)
                     else s1)
           in log_history (tool_result_entry tid out now) (send_tool_result tid out s2)))"

fun on_user_blocks :: "platform \<Rightarrow> string \<Rightarrow> content_block list \<Rightarrow> engine \<Rightarrow> engine \<times> exn option" where
  "on_user_blocks pf now [] s = (s, None)"
| "on_user_blocks pf now (ToolResultBlock tool_use_id c # bs) s =
     (case on_tool_result pf now tool_use_id c s of
        (s', None) \<Rightarrow> on_user_blocks pf now bs s'
      | (s', Some e) \<Rightarrow> (s', Some e))"
| "on_user_blocks pf now (b # bs) s = on_user_blocks pf now bs s"

definition on_result :: "jstring option \<Rightarrow> json \<Rightarrow> engine \<Rightarrow> engine" where
  "on_result res rest s =
     (let lastResultContent =
            (case res of
               Some (c # cs) \<Rightarrow> c # cs
             | _ \<Rightarrow> if currentText s \<noteq> [] then currentText s else lit ''Task completed.'');
          s1 = (send (ResultMsg lastResultContent (or_empty (sessionId s)) rest) s)
                 \<lparr>lastPreview := take 200 lastResultContent\<rparr>;
          s2 = (if truthy_str (sessionId s1)
                then s1\<lparr>store_calls := store_calls s1
                            @ [UpdateSessionActivity (or_empty (sessionId s1)) lastResultContent]\<rparr>
                else s1)
      in s2\<lparr>activity_calls := activity_calls s2 + 1, currentText := []\<rparr>)"

text \<open>The body of the loop for one message.\<close>

definition on_sdk_message ::
  "platform \<Rightarrow> jstring \<Rightarrow> string option \<Rightarrow> string \<Rightarrow> SDKMessage \<Rightarrow> engine \<Rightarrow> engine \<times> exn option" where
  "on_sdk_message pf prompt resumeSessionId now m s =
     (case m of
        SystemInit session_id \<Rightarrow> on_init prompt resumeSessionId now session_id s
      | SdkToolProgress tool_use_id tool_name elapsed \<Rightarrow>
          (on_tool_progress tool_use_id tool_name elapsed s, None)
      | SystemStatus st \<Rightarrow> (on_status st s, None)
      | SystemCompactBoundary trigger pre_tokens \<Rightarrow> on_compact_boundary now trigger pre_tokens s
      | SystemTaskNotification task_id st output_file summary \<Rightarrow>
          on_task_notification now task_id st output_file summary s
      | StreamEvent ev \<Rightarrow> (on_stream_event ev s, None)
      | AssistantMessage blocks \<Rightarrow> on_assistant now blocks s
      | UserMessageSDK blocks \<Rightarrow>
          (case blocks of None \<Rightarrow> (s, None) | Some bs \<Rightarrow> on_user_blocks pf now bs s)
      | ResultMessage res rest \<Rightarrow> (on_result res rest s, None)
      | OtherMessage \<Rightarrow> (s, None))"

text \<open>\<open>for await (const message of q)\<close>.\<close>

fun consume ::
  "platform \<Rightarrow> jstring \<Rightarrow> string option \<Rightarrow> stream_item list \<Rightarrow> engine \<Rightarrow> engine \<times> thrown option" where
  "consume pf prompt resumeSessionId [] s = (s, None)"
| "consume pf prompt resumeSessionId (Throw v # rest) s = (s, Some v)"
| "consume pf prompt resumeSessionId (Yield now m # rest) s =
     (case on_sdk_message pf prompt resumeSessionId now m s of
        (s', None) \<Rightarrow> consume pf prompt resumeSessionId rest s'
      | (s', Some e) \<Rightarrow> (s', Some (ThrownError e)))"

text \<open>
  The start of \<open>runQuery\<close>, before its \<open>try\<close> block, and the creation of the query with
  the locals of the loop.
\<close>

definition begin_query :: "engine \<Rightarrow> engine" where
  "begin_query s =
     s\<lparr>abortController := Some False, isRunning := True, streamingText := [],
       lastPreview := [], activity_calls := activity_calls s + 1\<rparr>"

definition create_query :: "engine \<Rightarrow> engine" where
  "create_query s =
     s\<lparr>forkFromSessionId := None, activeQuery := Some (queries_created s),
       queries_created := queries_created s + 1, currentText := [], promptLogged := False\<rparr>"

text \<open>
  The \<open>try\<close> block of \<open>runQuery\<close>: create the query, log the prompt, run the loop.  The
  result is the state in which the block ends and what it throws, if anything.
\<close>

definition try_block ::
  "platform \<Rightarrow> jstring \<Rightarrow> string option \<Rightarrow> string \<Rightarrow> stream_item list \<Rightarrow> engine
     \<Rightarrow> engine \<times> thrown option" where
  "try_block pf prompt resumeSessionId now stream s =
     (let s1 = create_query s;
          r = (if truthy_str (sessionId s1) \<or> truthy_str resumeSessionId
               then andThen
                      (append_to (or_default (sessionId s1) (or_empty resumeSessionId))
                         (new_entry User prompt now) s1)
                      (\<lambda>t. (t\<lparr>promptLogged := True\<rparr>, None))
               else (s1, None))
      in case snd r of
           None \<Rightarrow> consume pf prompt resumeSessionId stream (fst r)
         | Some e \<Rightarrow> (fst r, Some (ThrownError e)))"




text \<open>Error events, and a history directory whose entries are all kept and only extended.\<close>

fun is_error :: "ServerMessage \<Rightarrow> bool" where
  "is_error (ErrorMsg m) = True"
| "is_error _ = False"

definition history_kept :: "history_dir \<Rightarrow> history_dir \<Rightarrow> bool" where
  "history_kept h h' =
     (\<forall>f es. DAList.lookup h f = Some (Entries es) \<longrightarrow>
        (\<exists>more. DAList.lookup h' f = Some (Entries (es @ more))))"

subsection \<open>Example states\<close>

text \<open>
  A platform whose regular expressions match nothing, a new session on an open socket
  with an empty history directory, and a stream that announces the session id and one
  text delta.
\<close>

definition demo_platform :: platform where
  "demo_platform = \<lparr>bg_match = (\<lambda>out. None), agent_id_match = (\<lambda>out. None)\<rparr>"

definition demo_session :: engine where
  "demo_session = new_session True ''/home'' DAList.empty"


text \<open>A session whose query runs and has not yet been told its session id.\<close>

definition demo_running :: engine where
  "demo_running = create_query (begin_query demo_session)"

text \<open>A session with id \<open>s1\<close>, one pending question \<open>q1\<close> and that question in its history.\<close>

definition demo_question :: HistoryEntry where
  "demo_question = (new_entry Question [] ''t0'')\<lparr>questionId := Some ''q1'', questions := Some []\<rparr>"

definition demo_pending :: PendingQuestion where
  "demo_pending = \<lparr>pq_questionId = ''q1'', pq_resolve = 7, pq_questionData = None\<rparr>"

definition demo_asking :: engine where
  "demo_asking =
     (new_session True ''/home''
        (DAList.update ''s1.json'' (Entries [demo_question]) DAList.empty))
       \<lparr>sessionId := Some ''s1'',
        pendingQuestions := DAList.update ''q1'' demo_pending DAList.empty\<rparr>"

text \<open>
  Session \<open>s1\<close> resumed by a new \<open>ClaudeSession\<close> object (as \<open>resume_session\<close> does when
  the session no longer runs): the history file holds the question \<open>q1\<close> of the earlier
  object, answered; the new object has logged its prompt, has been told its session id
  and asks its first question.
\<close>

definition demo_answered :: history_dir where
  "demo_answered =
     DAList.update ''s1.json'' (Entries [demo_question\<lparr>answered := Some True\<rparr>]) DAList.empty"

definition demo_resumed :: engine where
  "demo_resumed =
     fst (canUseTool_question ''t3'' []
            (fst (try_block demo_platform (lit ''more'') (Some ''s1'') ''t1''
                    [Yield ''t2'' (SystemInit ''s1'')]
                    (begin_query (new_session True ''/home'' demo_answered)))))"

text \<open>A running session that knows the background task \<open>agent1\<close> of tool call \<open>tu1\<close>.\<close>

definition demo_tasks :: engine where
  "demo_tasks = demo_running\<lparr>taskIdToToolUseId := DAList.update ''agent1'' ''tu1'' DAList.empty\<rparr>"

text \<open>
  A history directory with one file whose tool call has no result, and one whose tool
  call has its result.
\<close>

definition demo_dir :: history_dir where
  "demo_dir =
     DAList.update ''s2.json''
       (Entries [tool_call_entry ''Bash'' None ''tu2'' ''t0'', tool_result_entry ''tu2'' [] ''t1''])
       (DAList.update ''s1.json'' (Entries [tool_call_entry ''Bash'' None ''tu1'' ''t0''])
          DAList.empty)"

section \<open>The relay client (relay-client.ts, relay-crypto.ts)\<close>

type_synonym bytes = "8 word list"

datatype RelayStatus = Disconnected | Connecting | Waiting_for_peer | Paired | Status_error

text \<open>The \<open>readyState\<close> of a socket of the \<open>ws\<close> library.\<close>

datatype readyState = CONNECTING | OPEN | CLOSING | CLOSED

text \<open>
  A frame handed to \<open>ws.send\<close>: the JSON text of a message, or the envelope \<open>encrypt\<close>
  makes of that text for a peer key.
\<close>

datatype frame = PlainFrame json | EncryptedFrame bytes json

text \<open>
  What the client is given and what it calls outside the repository: the secret key of
  \<open>opts.keyPair\<close>, \<open>Buffer.from(x, "base64")\<close> (on a value that may be \<open>undefined\<close>),
  \<open>nacl.box.open\<close> (it throws on a nonce or key of the wrong size and returns \<open>null\<close> when
  authentication fails), \<open>TextDecoder.decode\<close> and \<open>JSON.parse\<close>.
\<close>

record relay_env =
  secretKey :: bytes
  Buffer_from_base64 :: "json option \<Rightarrow> exn + bytes"
  nacl_box_open :: "bytes \<Rightarrow> bytes \<Rightarrow> bytes \<Rightarrow> bytes \<Rightarrow> exn + bytes option"
  TextDecoder_decode :: "bytes \<Rightarrow> string"
  JSON_parse :: "string \<Rightarrow> exn + json"

text \<open>
  The fields of \<open>RelayClient\<close>, the \<open>readyState\<close> of its \<open>VirtualRelaySocket\<close>, and the calls
  that leave it in call order: \<open>opts.onStatusChange\<close>, \<open>opts.onMessage\<close>, \<open>ws.send\<close>, the
  delays given to \<open>setTimeout\<close>, and how often the close callbacks of the virtual socket
  ran.  \<open>reconnectTimer\<close> holds the delay the last timer was armed with.
\<close>

record relay =
  ws :: "readyState option"
  phonePublicKey :: "bytes option"
  status :: RelayStatus
  reconnectDelay :: nat
  reconnectTimer :: "nat option"
  closed :: bool
  virtualWs_open :: bool
  status_changes :: "RelayStatus list"
  delivered :: "json list"
  frames_sent :: "frame list"
  timers_armed :: "nat list"
  virtual_closes :: nat

definition new_relay :: relay where
  "new_relay =
     \<lparr>ws = None, phonePublicKey = None, status = Disconnected, reconnectDelay = 1000,
      reconnectTimer = None, closed = False, virtualWs_open = False, status_changes = [],
      delivered = [], frames_sent = [], timers_armed = [], virtual_closes = 0\<rparr>"

text \<open>
  \<open>decrypt(envelope, theirPublicKey, mySecretKey)\<close> of relay-crypto.ts: decode nonce and
  ciphertext, open the box, throw when it does not open, decode the plaintext.
\<close>

definition decrypt :: "relay_env \<Rightarrow> json \<Rightarrow> bytes \<Rightarrow> bytes \<Rightarrow> exn + string" where
  "decrypt env envelope theirPublicKey mySecretKey =
     (case get_prop envelope ''n'' of
        Inl e \<Rightarrow> Inl e
      | Inr n \<Rightarrow>
         (case Buffer_from_base64 env n of
            Inl e \<Rightarrow> Inl e
          | Inr nonce \<Rightarrow>
             (case get_prop envelope ''c'' of
                Inl e \<Rightarrow> Inl e
              | Inr c \<Rightarrow>
                 (case Buffer_from_base64 env c of
                    Inl e \<Rightarrow> Inl e
                  | Inr ciphertext \<Rightarrow>
                     (case nacl_box_open env ciphertext nonce theirPublicKey mySecretKey of
                        Inl e \<Rightarrow> Inl e
                      | Inr None \<Rightarrow>
                          Inl (Error ''Decryption failed - invalid key or corrupted message'')
                      | Inr (Some plaintext) \<Rightarrow> Inr (TextDecoder_decode env plaintext))))))"

definition setStatus :: "RelayStatus \<Rightarrow> relay \<Rightarrow> relay" where
  "setStatus st s = s\<lparr>status := st, status_changes := status_changes s @ [st]\<rparr>"

text \<open>\<open>VirtualRelaySocket._setOpen\<close>: the close callbacks run when an open socket closes.\<close>

definition virtualWs_setOpen :: "bool \<Rightarrow> relay \<Rightarrow> relay" where
  "virtualWs_setOpen opn s =
     s\<lparr>virtualWs_open := opn,
       virtual_closes := (if virtualWs_open s \<and> \<not> opn then virtual_closes s + 1
                          else virtual_closes s)\<rparr>"

text \<open>
  \<open>ws.send(data)\<close> of the \<open>ws\<close> library on the current socket: it throws while the socket
  is connecting, sends when it is open and drops the data otherwise.
\<close>

definition ws_send :: "frame \<Rightarrow> relay \<Rightarrow> relay \<times> exn option" where
  "ws_send f s =
     (case ws s of
        Some OPEN \<Rightarrow> (s\<lparr>frames_sent := frames_sent s @ [f]\<rparr>, None)
      | Some CONNECTING \<Rightarrow> (s, Some (Error ''WebSocket is not open: readyState 0 (CONNECTING)''))
      | _ \<Rightarrow> (s, None))"

definition scheduleReconnect :: "relay \<Rightarrow> relay" where
  "scheduleReconnect s =
     (if closed s then s
      else (setStatus Disconnected s)
             \<lparr>reconnectTimer := Some (reconnectDelay s),
              timers_armed := timers_armed s @ [reconnectDelay s],
              reconnectDelay := min (reconnectDelay s * 2) 30000\<rparr>)"

text \<open>
  \<open>handleRelayMessage(parsed)\<close>: the state after the call and the exception that leaves
  it, if any.  A failed decryption, a plaintext that does not parse and an encrypted
  frame before the key exchange are logged, and the call returns.
\<close>

definition handleRelayMessage :: "relay_env \<Rightarrow> json \<Rightarrow> relay \<Rightarrow> relay \<times> exn option" where
  "handleRelayMessage env parsed s =
     (case get_prop parsed ''type'' of
        Inl e \<Rightarrow> (s, Some e)
      | Inr ty \<Rightarrow>
          if ty = Some (JStr ''peer_connected'') then (setStatus Waiting_for_peer s, None)
          else if ty = Some (JStr ''peer_disconnected'') then
            (setStatus Waiting_for_peer (virtualWs_setOpen False (s\<lparr>phonePublicKey := None\<rparr>)),
             None)
          else if ty = Some (JStr ''key_exchange'') then
            (case Buffer_from_base64 env (case get_prop parsed ''pubkey'' of Inr v \<Rightarrow> v | Inl e \<Rightarrow> None) of
               Inl e \<Rightarrow> (s, Some e)
             | Inr key \<Rightarrow>
                 (let s' = virtualWs_setOpen True (setStatus Paired (s\<lparr>phonePublicKey := Some key\<rparr>))
                  in if ws s' \<noteq> None
                     then ws_send (PlainFrame (JObj [(''type'', JStr ''key_exchange_ack'')])) s'
                     else (s', None)))
          else if truthy (case get_prop parsed ''n'' of Inr v \<Rightarrow> v | Inl e \<Rightarrow> None)
                \<and> truthy (case get_prop parsed ''c'' of Inr v \<Rightarrow> v | Inl e \<Rightarrow> None) then
            (case phonePublicKey s of
               None \<Rightarrow> (s, None)
             | Some key \<Rightarrow>
                 (case decrypt env parsed key (secretKey env) of
                    Inl e \<Rightarrow> (s, None)
                  | Inr plaintext \<Rightarrow>
                      (case JSON_parse env plaintext of
                         Inl e \<Rightarrow> (s, None)
                       | Inr msg \<Rightarrow> (s\<lparr>delivered := delivered s @ [msg]\<rparr>, None))))
          else (s, None))"

text \<open>
  The events of a relay client.  \<open>Connect thrown\<close> is a call of \<open>connect()\<close> (\<open>thrown\<close>: the
  \<open>WebSocket\<close> constructor throws), \<open>TimerFires thrown\<close> the reconnect timer running it;
  \<open>WsOpen\<close>, \<open>WsMessage raw\<close>, \<open>WsClose\<close> and \<open>WsError\<close> are the events of the socket;
  \<open>CallClose\<close> and \<open>CallSend msg\<close> are calls of \<open>close()\<close> and \<open>send(msg)\<close>.
\<close>

datatype event =
    Connect bool
  | TimerFires bool
  | WsOpen
  | WsMessage string
  | WsClose
  | WsError
  | CallClose
  | CallSend json

definition connect :: "bool \<Rightarrow> relay \<Rightarrow> relay" where
  "connect thrown s =
     (if closed s then s
      else if thrown then scheduleReconnect (setStatus Connecting s)
      else (setStatus Connecting s)\<lparr>ws := Some CONNECTING\<rparr>)"

text \<open>The \<open>open\<close> handler; the library has set the socket's \<open>readyState\<close> to \<open>OPEN\<close>.\<close>

definition on_open :: "relay \<Rightarrow> relay" where
  "on_open s =
     setStatus Waiting_for_peer
       (s\<lparr>ws := map_option (\<lambda>_. OPEN) (ws s), reconnectDelay := 1000\<rparr>)"

text \<open>The \<open>message\<close> handler: whatever is thrown while parsing or handling is caught.\<close>

definition on_message :: "relay_env \<Rightarrow> string \<Rightarrow> relay \<Rightarrow> relay" where
  "on_message env raw s =
     (case JSON_parse env raw of
        Inl e \<Rightarrow> s
      | Inr parsed \<Rightarrow> fst (handleRelayMessage env parsed s))"

definition on_close :: "relay \<Rightarrow> relay" where
  "on_close s =
     (let s' = setStatus Disconnected
                 (virtualWs_setOpen False (s\<lparr>ws := None, phonePublicKey := None\<rparr>))
      in if \<not> closed s' then scheduleReconnect s' else s')"

text \<open>
  \<open>close()\<close>.  It cancels the pending timer; a timer that fires on a closed client does
  nothing either way.
\<close>

definition relay_close :: "relay \<Rightarrow> relay" where
  "relay_close s = setStatus Disconnected (s\<lparr>closed := True, ws := None\<rparr>)"

definition relay_send :: "json \<Rightarrow> relay \<Rightarrow> relay" where
  "relay_send msg s =
     (if ws s \<noteq> Some OPEN then s
      else case phonePublicKey s of
             Some key \<Rightarrow> fst (ws_send (EncryptedFrame key msg) s)
           | None \<Rightarrow> fst (ws_send (PlainFrame msg) s))"

fun step :: "relay_env \<Rightarrow> event \<Rightarrow> relay \<Rightarrow> relay" where
  "step env (Connect thrown) s = connect thrown s"
| "step env (TimerFires thrown) s = connect thrown s"
| "step env WsOpen s = on_open s"
| "step env (WsMessage raw) s = on_message env raw s"
| "step env WsClose s = on_close s"
| "step env WsError s = s"
| "step env CallClose s = relay_close s"
| "step env (CallSend msg) s = relay_send msg s"

text \<open>The state after a sequence of events, the first event first.\<close>

fun run :: "relay_env \<Rightarrow> event list \<Rightarrow> relay \<Rightarrow> relay" where
  "run env [] s = s"
| "run env (e # es) s = run env es (step env e s)"

text \<open>The events that end in \<open>scheduleReconnect\<close>: a close, or a constructor that throws.\<close>

fun is_failure :: "event \<Rightarrow> bool" where
  "is_failure WsClose = True"
| "is_failure (Connect thrown) = thrown"
| "is_failure (TimerFires thrown) = thrown"
| "is_failure _ = False"

definition failures :: "event list \<Rightarrow> nat" where
  "failures es = length (filter is_failure es)"

text \<open>
  An encrypted frame: none of the three control types, with truthy \<open>n\<close> and \<open>c\<close>.
\<close>

definition is_encrypted_frame :: "json \<Rightarrow> bool" where
  "is_encrypted_frame parsed =
     (case get_prop parsed ''type'' of
        Inl e \<Rightarrow> False
      | Inr ty \<Rightarrow>
          ty \<noteq> Some (JStr ''peer_connected'') \<and> ty \<noteq> Some (JStr ''peer_disconnected'')
          \<and> ty \<noteq> Some (JStr ''key_exchange'')
          \<and> truthy (case get_prop parsed ''n'' of Inr v \<Rightarrow> v | Inl e \<Rightarrow> None)
          \<and> truthy (case get_prop parsed ''c'' of Inr v \<Rightarrow> v | Inl e \<Rightarrow> None))"

text \<open>The invariant of the pairing state: a paired client holds the peer's public key.\<close>

definition paired_inv :: "relay \<Rightarrow> bool" where
  "paired_inv s = (status s = Paired \<longrightarrow> phonePublicKey s \<noteq> None)"

text \<open>
  An environment to run the client on examples: \<open>JSON.parse\<close> knows a key exchange frame
  (\<open>kx\<close>), a peer-disconnected frame (\<open>pd\<close>) and an encrypted frame (\<open>enc\<close>), and
  \<open>nacl.box.open\<close> authenticates nothing.
\<close>

definition demo_env :: relay_env where
  "demo_env =
     \<lparr>secretKey = [1, 2, 3],
      Buffer_from_base64 =
        (\<lambda>v. case v of
               Some (JStr t) \<Rightarrow> Inr (map (\<lambda>c. of_nat (of_char c)) t)
             | _ \<Rightarrow> Inl (TypeError ''The first argument must be of type string'')),
      nacl_box_open = (\<lambda>c n pk sk. Inr None),
      TextDecoder_decode = map (\<lambda>b. char_of (unat b)),
      JSON_parse =
        (\<lambda>raw. if raw = ''kx'' then Inr (JObj [(''type'', JStr ''key_exchange''), (''pubkey'', JStr ''QUJD'')])
              else if raw = ''pd'' then Inr (JObj [(''type'', JStr ''peer_disconnected'')])
              else if raw = ''enc'' then Inr (JObj [(''n'', JStr ''bm9uY2U=''), (''c'', JStr ''Y2lwaGVy'')])
              else Inl (SyntaxError ''Unexpected token''))\<rparr>"

section \<open>Chunked tool results\<close>

text \<open>The chunk messages of the loop as a list, from index \<open>i\<close> and chunk number \<open>k\<close> on.\<close>
function chunks_from :: "string \<Rightarrow> string \<Rightarrow> jstring \<Rightarrow> nat \<Rightarrow> nat \<Rightarrow> ServerMessage list" where
  "chunks_from tid sid out i k =
     (if i < length out
      then ToolResultChunk tid k (slice out i (i + CHUNK_SIZE)) (i + CHUNK_SIZE \<ge> length out) sid
             # chunks_from tid sid out (i + CHUNK_SIZE) (k + 1)
      else [])"
  by pat_completeness auto
termination
  by (relation "measure (\<lambda>(tid, sid, out, i, k). length out - i)")
     (auto simp: CHUNK_SIZE_def)

declare chunks_from.simps [simp del]

lemma sessionId_send [simp]: "sessionId (send m s) = sessionId s"
  by (simp add: send_def)

lemma send_calls_send [simp]: "send_calls (send m s) = send_calls s @ [m]"
  by (simp add: send_def)

lemma chunk_loop_calls:
  "send_calls (chunk_loop tid out i k s) =
     send_calls s @ chunks_from tid (or_empty (sessionId s)) out i k"
proof (induction tid out i k s rule: chunk_loop.induct)
  case (1 tid out i k s)
  show ?case
  proof (cases "i < length out")
    case True
    then show ?thesis
      using "1.IH" by (subst chunk_loop.simps, subst chunks_from.simps) simp
  next
    case False
    then show ?thesis
      by (subst chunk_loop.simps, subst chunks_from.simps) simp
  qed
qed

lemma chunks_from_concat:
  "concat (map chunk_content (chunks_from tid sid out i k)) = drop i out"
proof (induction tid sid out i k rule: chunks_from.induct)
  case (1 tid sid out i k)
  show ?case
  proof (cases "i < length out")
    case True
    have "slice out i (i + CHUNK_SIZE) @ drop (i + CHUNK_SIZE) out = drop i out"
      unfolding slice_def by (simp add: add.commute flip: drop_drop)
    with True "1.IH" show ?thesis
      by (subst chunks_from.simps) simp
  next
    case False
    then show ?thesis by (subst chunks_from.simps) simp
  qed
qed

lemma chunks_from_Nil: "chunks_from tid sid out i k = [] \<longleftrightarrow> length out \<le> i"
  by (subst chunks_from.simps) auto

lemma chunks_from_index:
  "j < length (chunks_from tid sid out i k) \<Longrightarrow>
     is_chunk tid sid (k + j) (chunks_from tid sid out i k ! j)"
proof (induction tid sid out i k arbitrary: j rule: chunks_from.induct)
  case (1 tid sid out i k)
  show ?case
  proof (cases "i < length out")
    case True
    show ?thesis
    proof (cases j)
      case 0
      with True show ?thesis by (subst chunks_from.simps) simp
    next
      case (Suc j')
      with True "1.prems" have "j' < length (chunks_from tid sid out (i + CHUNK_SIZE) (k + 1))"
        by (subst (asm) chunks_from.simps) simp
      with True "1.IH" have "is_chunk tid sid (k + 1 + j') (chunks_from tid sid out (i + CHUNK_SIZE) (k + 1) ! j')"
        by blast
      with True Suc show ?thesis by (subst chunks_from.simps) simp
    qed
  next
    case False
    with "1.prems" show ?thesis by (subst (asm) chunks_from.simps) simp
  qed
qed

lemma chunks_from_done:
  "j < length (chunks_from tid sid out i k) \<Longrightarrow>
     chunk_done (chunks_from tid sid out i k ! j) \<longleftrightarrow> Suc j = length (chunks_from tid sid out i k)"
proof (induction tid sid out i k arbitrary: j rule: chunks_from.induct)
  case (1 tid sid out i k)
  show ?case
  proof (cases "i < length out")
    case True
    let ?rest = "chunks_from tid sid out (i + CHUNK_SIZE) (k + 1)"
    have unf: "chunks_from tid sid out i k =
        ToolResultChunk tid k (slice out i (i + CHUNK_SIZE)) (i + CHUNK_SIZE \<ge> length out) sid # ?rest"
      using True by (subst chunks_from.simps) simp
    show ?thesis
    proof (cases j)
      case 0
      then show ?thesis
        unfolding unf using chunks_from_Nil [of tid sid out "i + CHUNK_SIZE" "k + 1"] by auto
    next
      case (Suc j')
      with "1.prems" have "j' < length ?rest" unfolding unf by simp
      with True "1.IH" have "chunk_done (?rest ! j') \<longleftrightarrow> Suc j' = length ?rest"
        by blast
      with Suc show ?thesis unfolding unf by simp
    qed
  next
    case False
    with "1.prems" show ?thesis by (subst (asm) chunks_from.simps) simp
  qed
qed

lemma ws_open_send [simp]: "ws_open (send m s) = ws_open s"
  by (simp add: send_def)

lemma chunk_loop_wire:
  "wire (chunk_loop tid out i k s) =
     (if ws_open s then wire s @ chunks_from tid (or_empty (sessionId s)) out i k else wire s)"
proof (induction tid out i k s rule: chunk_loop.induct)
  case (1 tid out i k s)
  show ?case
  proof (cases "i < length out")
    case True
    then show ?thesis
      using "1.IH" by (subst chunk_loop.simps, subst chunks_from.simps) (simp add: send_def)
  next
    case False
    then show ?thesis
      by (subst chunk_loop.simps, subst chunks_from.simps) simp
  qed
qed

lemma send_tool_result_wire:
  "wire (send_tool_result tid out s) =
     (if ws_open s then wire s @ sent_between s (send_tool_result tid out s) else wire s)"
  by (simp add: send_tool_result_def chunk_loop_wire chunk_loop_calls sent_between_def send_def)

text \<open>
  C1.  For a tool output longer than the threshold of 500 code units, the messages passed
  to \<open>send\<close> are a non-empty sequence of \<open>tool_result_chunk\<close> messages whose \<open>chunkIndex\<close> is
  0, 1, 2, ... in the order sent, whose contents concatenated in that order are the output
  exactly, and whose \<open>done\<close> flag is set on the last chunk and on no other.  An output of at
  most 500 code units is passed whole, as one \<open>tool_result\<close> message.  On an open socket
  these messages are what goes out; on a closed one nothing does.
\<close>

theorem tool_result_chunking:
  "(length out > CHUNK_THRESHOLD \<longrightarrow>
      (let ms = sent_between s (send_tool_result tid out s) in
         ms \<noteq> [] \<and>
         (\<forall>k < length ms. is_chunk tid (or_empty (sessionId s)) k (ms ! k)) \<and>
         concat (map chunk_content ms) = out \<and>
         (\<forall>k < length ms. chunk_done (ms ! k) \<longleftrightarrow> Suc k = length ms))) \<and>
   (length out \<le> CHUNK_THRESHOLD \<longrightarrow>
      sent_between s (send_tool_result tid out s) = [ToolResult tid out (or_empty (sessionId s))]) \<and>
   wire (send_tool_result tid out s) =
     (if ws_open s then wire s @ sent_between s (send_tool_result tid out s) else wire s)"
proof (intro conjI impI)
  assume big: "length out > CHUNK_THRESHOLD"
  let ?cs = "chunks_from tid (or_empty (sessionId s)) out 0 0"
  have ms: "sent_between s (send_tool_result tid out s) = ?cs"
    using big by (simp add: sent_between_def send_tool_result_def chunk_loop_calls)
  have ne: "?cs \<noteq> []"
    using big by (auto simp: chunks_from_Nil CHUNK_THRESHOLD_def)
  have idx: "\<forall>k < length ?cs. is_chunk tid (or_empty (sessionId s)) k (?cs ! k)"
    using chunks_from_index [of _ tid "or_empty (sessionId s)" out 0 0] by simp
  have cat: "concat (map chunk_content ?cs) = out"
    by (simp add: chunks_from_concat)
  have dn: "\<forall>k < length ?cs. chunk_done (?cs ! k) \<longleftrightarrow> Suc k = length ?cs"
    using chunks_from_done by blast
  show "let ms = sent_between s (send_tool_result tid out s) in
         ms \<noteq> [] \<and>
         (\<forall>k < length ms. is_chunk tid (or_empty (sessionId s)) k (ms ! k)) \<and>
         concat (map chunk_content ms) = out \<and>
         (\<forall>k < length ms. chunk_done (ms ! k) \<longleftrightarrow> Suc k = length ms)"
    unfolding ms Let_def using ne idx cat dn by blast
next
  assume "length out \<le> CHUNK_THRESHOLD"
  then show "sent_between s (send_tool_result tid out s) = [ToolResult tid out (or_empty (sessionId s))]"
    by (simp add: sent_between_def send_tool_result_def)
next
  show "wire (send_tool_result tid out s) =
     (if ws_open s then wire s @ sent_between s (send_tool_result tid out s) else wire s)"
    by (rule send_tool_result_wire)
qed


theorem tool_result_chunking_witness:
  "CHUNK_THRESHOLD < length (replicate 501 (0 :: 16 word)) \<and>
   concat (map chunk_content
     (sent_between (new_session True ''/home'' DAList.empty)
        (send_tool_result ''t1'' (replicate 501 0) (new_session True ''/home'' DAList.empty))))
     = replicate 501 (0 :: 16 word) \<and>
   length (replicate 3 (0 :: 16 word)) \<le> CHUNK_THRESHOLD \<and>
   sent_between (new_session True ''/home'' DAList.empty)
        (send_tool_result ''t1'' (replicate 3 0) (new_session True ''/home'' DAList.empty))
     = [ToolResult ''t1'' (replicate 3 0) (or_empty (sessionId (new_session True ''/home'' DAList.empty)))]"
  using tool_result_chunking [of "replicate 501 (0 :: 16 word)" "new_session True ''/home'' DAList.empty" "''t1''"]
    tool_result_chunking [of "replicate 3 (0 :: 16 word)" "new_session True ''/home'' DAList.empty" "''t1''"]
  by (simp add: CHUNK_THRESHOLD_def Let_def)

section \<open>Reconnect backoff of the relay client\<close>

lemma setStatus_fields [simp]:
  "closed (setStatus st s) = closed s"
  "reconnectDelay (setStatus st s) = reconnectDelay s"
  "reconnectTimer (setStatus st s) = reconnectTimer s"
  "phonePublicKey (setStatus st s) = phonePublicKey s"
  "status (setStatus st s) = st"
  "ws (setStatus st s) = ws s"
  by (simp_all add: setStatus_def)

lemma virtualWs_setOpen_fields [simp]:
  "closed (virtualWs_setOpen b s) = closed s"
  "reconnectDelay (virtualWs_setOpen b s) = reconnectDelay s"
  "reconnectTimer (virtualWs_setOpen b s) = reconnectTimer s"
  "phonePublicKey (virtualWs_setOpen b s) = phonePublicKey s"
  "status (virtualWs_setOpen b s) = status s"
  "ws (virtualWs_setOpen b s) = ws s"
  by (simp_all add: virtualWs_setOpen_def)

lemma ws_send_fields [simp]:
  "closed (fst (ws_send f s)) = closed s"
  "reconnectDelay (fst (ws_send f s)) = reconnectDelay s"
  "reconnectTimer (fst (ws_send f s)) = reconnectTimer s"
  "phonePublicKey (fst (ws_send f s)) = phonePublicKey s"
  "status (fst (ws_send f s)) = status s"
  by (simp_all add: ws_send_def split: option.splits readyState.splits)

lemma handleRelayMessage_timer [simp]:
  "closed (fst (handleRelayMessage env parsed s)) = closed s"
  "reconnectDelay (fst (handleRelayMessage env parsed s)) = reconnectDelay s"
  "reconnectTimer (fst (handleRelayMessage env parsed s)) = reconnectTimer s"
  by (simp_all add: handleRelayMessage_def Let_def split: sum.splits option.splits)

lemma on_message_timer [simp]:
  "closed (on_message env raw s) = closed s"
  "reconnectDelay (on_message env raw s) = reconnectDelay s"
  "reconnectTimer (on_message env raw s) = reconnectTimer s"
  by (simp_all add: on_message_def split: sum.splits)

lemma relay_send_timer [simp]:
  "closed (relay_send msg s) = closed s"
  "reconnectDelay (relay_send msg s) = reconnectDelay s"
  "reconnectTimer (relay_send msg s) = reconnectTimer s"
  by (simp_all add: relay_send_def split: option.splits)

lemma step_failure:
  assumes "\<not> closed s" "is_failure e"
  shows "\<not> closed (step env e s)"
    and "reconnectDelay (step env e s) = min (reconnectDelay s * 2) 30000"
    and "reconnectTimer (step env e s) = Some (reconnectDelay s)"
  using assms
  by (cases e; simp add: connect_def on_close_def scheduleReconnect_def Let_def)+

lemma step_other:
  assumes "\<not> is_failure e" "e \<noteq> WsOpen" "e \<noteq> CallClose"
  shows "closed (step env e s) = closed s"
    and "reconnectDelay (step env e s) = reconnectDelay s"
    and "reconnectTimer (step env e s) = reconnectTimer s"
  using assms
  by (cases e; simp add: connect_def)+

lemma double_capped: "min (min (1000 * 2 ^ k) 30000 * 2) 30000 = min (1000 * 2 ^ Suc k) (30000 :: nat)"
  by simp

lemma backoff_run:
  assumes "\<not> closed s" "reconnectDelay s = min (1000 * 2 ^ k) 30000"
    and "\<forall>e \<in> set es. e \<noteq> WsOpen \<and> e \<noteq> CallClose"
  shows "\<not> closed (run env es s)
       \<and> reconnectDelay (run env es s) = min (1000 * 2 ^ (k + failures es)) 30000
       \<and> reconnectTimer (run env es s) =
           (if failures es = 0 then reconnectTimer s
            else Some (min (1000 * 2 ^ (k + failures es - 1)) 30000))"
  using assms
proof (induction es arbitrary: s k)
  case Nil
  then show ?case by (simp add: failures_def)
next
  case (Cons e es)
  have rest: "\<forall>e \<in> set es. e \<noteq> WsOpen \<and> e \<noteq> CallClose" using Cons.prems(3) by simp
  have e: "e \<noteq> WsOpen" "e \<noteq> CallClose" using Cons.prems(3) by simp_all
  show ?case
  proof (cases "is_failure e")
    case True
    have c: "\<not> closed (step env e s)" using step_failure(1) [OF Cons.prems(1) True] .
    have d: "reconnectDelay (step env e s) = min (1000 * 2 ^ Suc k) 30000"
      using step_failure(2) [OF Cons.prems(1) True, of env] Cons.prems(2) double_capped by simp
    have t: "reconnectTimer (step env e s) = Some (min (1000 * 2 ^ k) 30000)"
      using step_failure(3) [OF Cons.prems(1) True, of env] Cons.prems(2) by simp
    have f: "failures (e # es) = Suc (failures es)" using True by (simp add: failures_def)
    from Cons.IH [OF c d rest] t f show ?thesis by auto
  next
    case False
    have c: "\<not> closed (step env e s)" using step_other(1) [OF False e] Cons.prems(1) by simp
    have d: "reconnectDelay (step env e s) = min (1000 * 2 ^ k) 30000"
      using step_other(2) [OF False e] Cons.prems(2) by simp
    have t: "reconnectTimer (step env e s) = reconnectTimer s"
      using step_other(3) [OF False e] by simp
    have f: "failures (e # es) = failures es" using False by (simp add: failures_def)
    from Cons.IH [OF c d rest] t f show ?thesis by simp
  qed
qed

lemma min_scale: "min (1000 * 2 ^ n) 30000 = 1000 * min (2 ^ n) (30 :: nat)"
  by (simp add: min_def)

text \<open>
  C3.  From a client that is not closed and whose delay is the initial 1000 ms, let events
  follow that contain no successful open (and no \<open>close()\<close>), \<open>N \<ge> 1\<close> of them failures:
  the timer of the \<open>N\<close>-th reconnect attempt is armed with \<open>min (2 ^ (N - 1)) 30\<close> seconds.
  An open event resets the delay to 1000 ms in every state.
\<close>

theorem reconnect_backoff:
  "(\<not> closed s \<and> reconnectDelay s = 1000 \<and> (\<forall>e \<in> set es. e \<noteq> WsOpen \<and> e \<noteq> CallClose)
      \<and> 1 \<le> failures es
      \<longrightarrow> reconnectTimer (run env es s) = Some (1000 * min (2 ^ (failures es - 1)) 30))
   \<and> reconnectDelay (step env WsOpen s') = 1000"
proof (intro conjI impI)
  assume a: "\<not> closed s \<and> reconnectDelay s = 1000 \<and> (\<forall>e \<in> set es. e \<noteq> WsOpen \<and> e \<noteq> CallClose)
      \<and> 1 \<le> failures es"
  then have "reconnectDelay s = min (1000 * 2 ^ 0) 30000" by simp
  from backoff_run [OF _ this, of es env] a
  show "reconnectTimer (run env es s) = Some (1000 * min (2 ^ (failures es - 1)) 30)"
    by (simp add: min_scale)
next
  show "reconnectDelay (step env WsOpen s') = 1000" by (simp add: on_open_def)
qed

theorem reconnect_backoff_witness:
  "\<not> closed new_relay \<and> reconnectDelay new_relay = 1000
   \<and> 1 \<le> failures [WsClose, TimerFires False, WsClose, TimerFires True, TimerFires False, WsClose]
   \<and> reconnectTimer (run demo_env [WsClose, TimerFires False, WsClose, TimerFires True, TimerFires False, WsClose] new_relay)
       = Some 8000
   \<and> reconnectDelay (step demo_env WsOpen
        (run demo_env [WsClose, TimerFires False, WsClose, TimerFires True, TimerFires False, WsClose] new_relay)) = 1000"
  using reconnect_backoff [of new_relay "[WsClose, TimerFires False, WsClose, TimerFires True, TimerFires False, WsClose]"
      demo_env "run demo_env [WsClose, TimerFires False, WsClose, TimerFires True, TimerFires False, WsClose] new_relay"]
  by (simp add: new_relay_def failures_def)

section \<open>Pairing state of the relay client\<close>

lemma handleRelayMessage_inv:
  "paired_inv s \<Longrightarrow> paired_inv (fst (handleRelayMessage env parsed s))"
  by (auto simp: paired_inv_def handleRelayMessage_def Let_def split: sum.splits option.splits)

lemma step_inv: "paired_inv s \<Longrightarrow> paired_inv (step env e s)"
proof (cases e)
  case (WsMessage raw)
  assume "paired_inv s"
  then show ?thesis using WsMessage handleRelayMessage_inv [of s env]
    by (simp add: on_message_def split: sum.splits)
qed (auto simp: paired_inv_def connect_def scheduleReconnect_def on_open_def on_close_def
       relay_close_def relay_send_def Let_def split: option.splits)

lemma run_inv: "paired_inv s \<Longrightarrow> paired_inv (run env es s)"
  by (induction es arbitrary: s) (simp_all add: step_inv)

text \<open>
  C4.  In every state a new client reaches by a sequence of events, status \<open>paired\<close>
  implies that the peer's public key is present; and a \<open>peer_disconnected\<close> frame sets the
  status to \<open>waiting_for_peer\<close> and clears the peer's public key, in every state.
\<close>

theorem paired_has_key:
  "(status (run env es new_relay) = Paired \<longrightarrow> phonePublicKey (run env es new_relay) \<noteq> None)
   \<and> (JSON_parse env raw = Inr parsed \<and> get_prop parsed ''type'' = Inr (Some (JStr ''peer_disconnected''))
        \<longrightarrow> status (step env (WsMessage raw) s) = Waiting_for_peer
          \<and> phonePublicKey (step env (WsMessage raw) s) = None)"
proof -
  have "paired_inv new_relay" by (simp add: paired_inv_def new_relay_def)
  then have "paired_inv (run env es new_relay)" by (rule run_inv)
  then show ?thesis
    by (auto simp: paired_inv_def on_message_def handleRelayMessage_def)
qed

theorem paired_has_key_witness:
  "status (run demo_env [Connect False, WsOpen, WsMessage ''kx''] new_relay) = Paired
   \<and> phonePublicKey (run demo_env [Connect False, WsOpen, WsMessage ''kx''] new_relay) \<noteq> None
   \<and> JSON_parse demo_env ''pd'' = Inr (JObj [(''type'', JStr ''peer_disconnected'')])
   \<and> get_prop (JObj [(''type'', JStr ''peer_disconnected'')]) ''type'' = Inr (Some (JStr ''peer_disconnected''))
   \<and> status (step demo_env (WsMessage ''pd'')
        (run demo_env [Connect False, WsOpen, WsMessage ''kx''] new_relay)) = Waiting_for_peer
   \<and> phonePublicKey (step demo_env (WsMessage ''pd'')
        (run demo_env [Connect False, WsOpen, WsMessage ''kx''] new_relay)) = None"
proof -
  have st: "status (run demo_env [Connect False, WsOpen, WsMessage ''kx''] new_relay) = Paired"
    by (simp add: demo_env_def new_relay_def connect_def on_open_def on_message_def
          handleRelayMessage_def setStatus_def virtualWs_setOpen_def ws_send_def Let_def)
  have js: "JSON_parse demo_env ''pd'' = Inr (JObj [(''type'', JStr ''peer_disconnected'')])"
    by (simp add: demo_env_def)
  have ty: "get_prop (JObj [(''type'', JStr ''peer_disconnected'')]) ''type'' = Inr (Some (JStr ''peer_disconnected''))"
    by simp
  show ?thesis
    using st js ty
      paired_has_key [of demo_env "[Connect False, WsOpen, WsMessage ''kx'']" "''pd''"
        "JObj [(''type'', JStr ''peer_disconnected'')]"
        "run demo_env [Connect False, WsOpen, WsMessage ''kx''] new_relay"]
    by simp
qed

section \<open>Frames that do not decrypt\<close>

text \<open>
  C5.  An encrypted frame that arrives while no peer key is stored, or whose decryption
  throws, leaves the client exactly as it was (status, peer key, socket and all the rest),
  and neither \<open>handleRelayMessage\<close> nor the message handler throws.
\<close>

theorem undecryptable_frame_dropped:
  "is_encrypted_frame parsed \<and>
   (phonePublicKey s = None \<or>
    (\<exists>key e. phonePublicKey s = Some key \<and> decrypt env parsed key (secretKey env) = Inl e))
   \<longrightarrow> handleRelayMessage env parsed s = (s, None)
      \<and> (JSON_parse env raw = Inr parsed \<longrightarrow> step env (WsMessage raw) s = s)"
  by (auto simp: is_encrypted_frame_def handleRelayMessage_def on_message_def split: sum.splits)

theorem undecryptable_frame_dropped_witness:
  "is_encrypted_frame (JObj [(''n'', JStr ''bm9uY2U=''), (''c'', JStr ''Y2lwaGVy'')])
   \<and> phonePublicKey new_relay = None
   \<and> handleRelayMessage demo_env (JObj [(''n'', JStr ''bm9uY2U=''), (''c'', JStr ''Y2lwaGVy'')]) new_relay
       = (new_relay, None)
   \<and> JSON_parse demo_env ''enc'' = Inr (JObj [(''n'', JStr ''bm9uY2U=''), (''c'', JStr ''Y2lwaGVy'')])
   \<and> step demo_env (WsMessage ''enc'') new_relay = new_relay
   \<and> (\<exists>key e. phonePublicKey (run demo_env [Connect False, WsOpen, WsMessage ''kx''] new_relay) = Some key
        \<and> decrypt demo_env (JObj [(''n'', JStr ''bm9uY2U=''), (''c'', JStr ''Y2lwaGVy'')]) key (secretKey demo_env) = Inl e)
   \<and> step demo_env (WsMessage ''enc'') (run demo_env [Connect False, WsOpen, WsMessage ''kx''] new_relay)
       = run demo_env [Connect False, WsOpen, WsMessage ''kx''] new_relay"
proof -
  let ?f = "JObj [(''n'', JStr ''bm9uY2U=''), (''c'', JStr ''Y2lwaGVy'')]"
  let ?p = "run demo_env [Connect False, WsOpen, WsMessage ''kx''] new_relay"
  have enc: "is_encrypted_frame ?f" by (simp add: is_encrypted_frame_def)
  have k0: "phonePublicKey new_relay = None" by (simp add: new_relay_def)
  have js: "JSON_parse demo_env ''enc'' = Inr ?f" by (simp add: demo_env_def)
  have dec: "\<And>key. \<exists>e. decrypt demo_env ?f key (secretKey demo_env) = Inl e"
    by (simp add: decrypt_def demo_env_def)
  have key: "\<exists>key. phonePublicKey ?p = Some key"
    by (simp add: demo_env_def new_relay_def connect_def on_open_def on_message_def
          handleRelayMessage_def setStatus_def virtualWs_setOpen_def ws_send_def Let_def)
  have ex: "\<exists>key e. phonePublicKey ?p = Some key \<and> decrypt demo_env ?f key (secretKey demo_env) = Inl e"
    using key dec by blast
  show ?thesis
    using enc k0 js ex
      undecryptable_frame_dropped [of ?f new_relay demo_env "''enc''"]
      undecryptable_frame_dropped [of ?f ?p demo_env "''enc''"]
    by blast
qed


section \<open>Closing pending tool calls\<close>

fun synth :: "(nat \<Rightarrow> string) \<Rightarrow> string set \<Rightarrow> nat \<Rightarrow> HistoryEntry list \<Rightarrow> HistoryEntry list" where
  "synth clock rs i [] = []"
| "synth clock rs i (e # es) =
     (if needs_result rs e then [empty_result (clock i) e] else []) @ synth clock rs (Suc i) es"

lemma synth_append:
  "synth clock rs i (xs @ ys) = synth clock rs i xs @ synth clock rs (i + length xs) ys"
  by (induction xs arbitrary: i) simp_all

lemma not_needs_empty_result [simp]: "\<not> needs_result rs (empty_result now e)"
  by (simp add: needs_result_def)

lemma cleanup_loop_synth:
  "cleanup_loop clock rs i es m =
     (es @ synth clock rs i (drop i es), m \<or> synth clock rs i (drop i es) \<noteq> [])"
proof (induction clock rs i es m rule: cleanup_loop.induct)
  case (1 clock rs i es m)
  show ?case
  proof (cases "i < length es")
    case False
    then show ?thesis by (subst cleanup_loop.simps) simp
  next
    case True
    note d = drop_step [OF True]
    show ?thesis
    proof (cases "needs_result rs (es ! i)")
      case yes: True
      have "drop (Suc i) (es @ [empty_result (clock i) (es ! i)])
              = drop (Suc i) es @ [empty_result (clock i) (es ! i)]"
        using True by simp
      then have "synth clock rs (Suc i) (drop (Suc i) (es @ [empty_result (clock i) (es ! i)]))
              = synth clock rs (Suc i) (drop (Suc i) es)"
        by (simp add: synth_append)
      with "1.IH"(1) [OF True yes] True yes show ?thesis
        by (subst cleanup_loop.simps) (simp add: d)
    next
      case no: False
      with "1.IH"(2) [OF True no] True show ?thesis
        by (subst cleanup_loop.simps) (simp add: d)
    qed
  qed
qed

lemma cleanup_entries_synth:
  "cleanup_entries clock es =
     (es @ synth clock (result_ids es) 0 es, synth clock (result_ids es) 0 es \<noteq> [])"
  by (simp add: cleanup_entries_def cleanup_loop_synth)

lemma synth_shape:
  "x \<in> set (synth clock rs i es) \<Longrightarrow> role x = Tool_result \<and> content x = [] \<and> toolOutput x = Some []"
  by (induction es arbitrary: i) (auto simp: empty_result_def new_entry_def split: if_splits)

lemma synth_covers:
  "e \<in> set es \<Longrightarrow> needs_result rs e \<Longrightarrow>
     \<exists>r \<in> set (synth clock rs i es). role r = Tool_result \<and> toolUseId r = toolUseId e"
proof (induction es arbitrary: i)
  case Nil
  then show ?case by simp
next
  case (Cons a es)
  show ?case
  proof (cases "e = a")
    case True
    with Cons.prems(2) show ?thesis by (simp add: empty_result_def new_entry_def)
  next
    case False
    with Cons.prems have "e \<in> set es" by simp
    from Cons.IH [OF this Cons.prems(2), of "Suc i"] show ?thesis by auto
  qed
qed

lemma synth_Nil: "(\<forall>e \<in> set es. \<not> needs_result rs e) \<Longrightarrow> synth clock rs i es = []"
  by (induction es arbitrary: i) simp_all

lemma result_ids_iff:
  "t \<in> result_ids es \<longleftrightarrow>
     t \<noteq> [] \<and> (\<exists>r \<in> set es. role r = Tool_result \<and> toolUseId r = Some t)"
  by (auto simp: result_ids_def truthy_str_def or_empty_def image_iff split: option.splits)

lemma calls_closed_after:
  "calls_closed (es @ synth clock (result_ids es) i es)"
  unfolding calls_closed_def
proof (intro ballI impI)
  fix e
  assume mem: "e \<in> set (es @ synth clock (result_ids es) i es)"
    and call: "role e = Tool_call \<and> truthy_str (toolUseId e)"
  from mem call have e: "e \<in> set es"
    using synth_shape [of e clock "result_ids es" i es] by auto
  show "\<exists>r \<in> set (es @ synth clock (result_ids es) i es). role r = Tool_result \<and> toolUseId r = toolUseId e"
  proof (cases "needs_result (result_ids es) e")
    case True
    from synth_covers [OF e True, of clock i] show ?thesis by auto
  next
    case False
    with call obtain t where t: "toolUseId e = Some t" "t \<in> result_ids es"
      by (auto simp: needs_result_def truthy_str_def or_empty_def split: option.splits)
    then show ?thesis by (auto simp: result_ids_iff)
  qed
qed

lemma calls_closed_no_synth:
  assumes "calls_closed es"
  shows "synth clock (result_ids es) i es = []"
proof (rule synth_Nil, intro ballI notI)
  fix e
  assume e: "e \<in> set es" and n: "needs_result (result_ids es) e"
  from n obtain t where t: "role e = Tool_call" "toolUseId e = Some t" "t \<noteq> []" "t \<notin> result_ids es"
    by (auto simp: needs_result_def truthy_str_def or_empty_def split: option.splits)
  with assms e obtain r where "r \<in> set es" "role r = Tool_result" "toolUseId r = Some t"
    by (auto simp: calls_closed_def truthy_str_def)
  with t show False by (auto simp: result_ids_iff)
qed

text \<open>What \<open>cleanup_files\<close> makes of one file.\<close>

definition cleaned :: "(nat \<Rightarrow> string) \<Rightarrow> hfile option \<Rightarrow> hfile option" where
  "cleaned clock x =
     (case x of
        Some (Entries es) \<Rightarrow> Some (Entries (fst (cleanup_entries clock es)))
      | _ \<Rightarrow> x)"

lemma cleanup_files_lookup:
  "distinct fs \<Longrightarrow>
   DAList.lookup (fst (cleanup_files clock fs (d, w))) f =
     (if f \<in> set fs then cleaned clock (DAList.lookup d f) else DAList.lookup d f)"
proof (induction fs arbitrary: d w)
  case Nil
  then show ?case by simp
next
  case (Cons a fs)
  then have dist: "distinct fs" and a: "a \<notin> set fs" by simp_all
  show ?case
  proof (cases "DAList.lookup d a")
    case None
    with Cons.IH [OF dist, of d w] a show ?thesis by (auto simp: cleaned_def)
  next
    case (Some x)
    show ?thesis
    proof (cases x)
      case Unparsable
      with Some Cons.IH [OF dist, of d w] a show ?thesis by (auto simp: cleaned_def)
    next
      case (Entries es)
      show ?thesis
      proof (cases "snd (cleanup_entries clock es)")
        case True
        with Some Entries
          Cons.IH [OF dist, of "DAList.update a (Entries (fst (cleanup_entries clock es))) d" "w @ [a]"] a
        show ?thesis by (auto simp: cleaned_def DAList.lookup_update)
      next
        case False
        then have "fst (cleanup_entries clock es) = es" by (simp add: cleanup_entries_synth)
        with False Some Entries Cons.IH [OF dist, of d w] a show ?thesis by (auto simp: cleaned_def)
      qed
    qed
  qed
qed

lemma cleanup_files_written:
  "f \<in> set (snd (cleanup_files clock fs (d, w))) \<Longrightarrow> distinct fs \<Longrightarrow>
     f \<in> set w \<or> (f \<in> set fs \<and> (\<exists>es. DAList.lookup d f = Some (Entries es) \<and> snd (cleanup_entries clock es)))"
proof (induction fs arbitrary: d w)
  case Nil
  then show ?case by simp
next
  case (Cons a fs)
  then have dist: "distinct fs" and a: "a \<notin> set fs" by simp_all
  show ?case
  proof (cases "\<exists>es. DAList.lookup d a = Some (Entries es) \<and> snd (cleanup_entries clock es)")
    case True
    then obtain es where es: "DAList.lookup d a = Some (Entries es)" "snd (cleanup_entries clock es)" by blast
    with Cons.prems(1) have
      "f \<in> set (snd (cleanup_files clock fs (DAList.update a (Entries (fst (cleanup_entries clock es))) d, w @ [a])))"
      by simp
    from Cons.IH [OF this dist] es a show ?thesis
      by (auto simp: DAList.lookup_update split: if_splits)
  next
    case False
    with Cons.prems(1) have "f \<in> set (snd (cleanup_files clock fs (d, w)))"
      by (auto split: option.splits hfile.splits if_splits)
    from Cons.IH [OF this dist] show ?thesis by auto
  qed
qed

lemma listed_names:
  "f \<in> set (filter endsWith_json (map fst (DAList.impl_of d))) \<longleftrightarrow>
     endsWith_json f \<and> DAList.lookup d f \<noteq> None"
  by (auto simp: DAList.lookup.rep_eq map_of_eq_None_iff image_iff)

lemma listed_distinct: "distinct (filter endsWith_json (map fst (DAList.impl_of d)))"
  by (rule distinct_filter) simp

text \<open>
  C10.  Take a history file whose name ends in \<open>.json\<close> and which parses.  After
  \<open>cleanupPendingToolCalls\<close> the file holds its former entries, unchanged and in order,
  followed by synthesized entries only, each an empty \<open>tool_result\<close>; every \<open>tool_call\<close>
  entry with a (non-empty) \<open>toolUseId\<close> has a \<open>tool_result\<close> entry with the same id; and if
  that held before the call, nothing is appended and the file is not written.
\<close>

theorem cleanup_closes_tool_calls:
  "DAList.lookup d f = Some (Entries es) \<and> endsWith_json f \<longrightarrow>
     (\<exists>extra.
        DAList.lookup (fst (cleanupPendingToolCalls clock d)) f = Some (Entries (es @ extra))
        \<and> (\<forall>x \<in> set extra. role x = Tool_result \<and> content x = [] \<and> toolOutput x = Some [])
        \<and> calls_closed (es @ extra)
        \<and> (calls_closed es \<longrightarrow> extra = [] \<and> f \<notin> set (snd (cleanupPendingToolCalls clock d))))"
proof
  assume a: "DAList.lookup d f = Some (Entries es) \<and> endsWith_json f"
  let ?extra = "synth clock (result_ids es) 0 es"
  let ?fs = "filter endsWith_json (map fst (DAList.impl_of d))"
  have listed: "f \<in> set ?fs" using a by (simp only: listed_names) simp
  have "DAList.lookup (fst (cleanup_files clock ?fs (d, []))) f = cleaned clock (DAList.lookup d f)"
    using cleanup_files_lookup [OF listed_distinct [of d], where clock = clock and d = d and w = "[]" and f = f]
    by (simp only: listed if_True)
  then have look: "DAList.lookup (fst (cleanupPendingToolCalls clock d)) f = Some (Entries (es @ ?extra))"
    using a by (simp add: cleanupPendingToolCalls_def cleaned_def cleanup_entries_synth)
  have shape: "\<forall>x \<in> set ?extra. role x = Tool_result \<and> content x = [] \<and> toolOutput x = Some []"
    using synth_shape by blast
  have closed_after: "calls_closed (es @ ?extra)" by (rule calls_closed_after)
  have unmodified: "calls_closed es \<longrightarrow> ?extra = [] \<and> f \<notin> set (snd (cleanupPendingToolCalls clock d))"
  proof
    assume c: "calls_closed es"
    then have e: "?extra = []" by (rule calls_closed_no_synth)
    have "f \<notin> set (snd (cleanupPendingToolCalls clock d))"
    proof
      assume "f \<in> set (snd (cleanupPendingToolCalls clock d))"
      then have "f \<in> set (snd (cleanup_files clock ?fs (d, [])))"
        by (simp add: cleanupPendingToolCalls_def)
      from cleanup_files_written [OF this listed_distinct [of d]] a e show False
        by (simp add: cleanup_entries_synth)
    qed
    with e show "?extra = [] \<and> f \<notin> set (snd (cleanupPendingToolCalls clock d))" by simp
  qed
  from look shape closed_after unmodified
  show "\<exists>extra.
        DAList.lookup (fst (cleanupPendingToolCalls clock d)) f = Some (Entries (es @ extra))
        \<and> (\<forall>x \<in> set extra. role x = Tool_result \<and> content x = [] \<and> toolOutput x = Some [])
        \<and> calls_closed (es @ extra)
        \<and> (calls_closed es \<longrightarrow> extra = [] \<and> f \<notin> set (snd (cleanupPendingToolCalls clock d)))"
    by blast
qed


theorem cleanup_closes_tool_calls_witness:
  "DAList.lookup demo_dir ''s1.json'' = Some (Entries [tool_call_entry ''Bash'' None ''tu1'' ''t0''])
   \<and> endsWith_json ''s1.json''
   \<and> (\<exists>extra.
        DAList.lookup (fst (cleanupPendingToolCalls (\<lambda>i. ''t9'') demo_dir)) ''s1.json''
          = Some (Entries ([tool_call_entry ''Bash'' None ''tu1'' ''t0''] @ extra))
        \<and> calls_closed ([tool_call_entry ''Bash'' None ''tu1'' ''t0''] @ extra))
   \<and> DAList.lookup demo_dir ''s2.json''
       = Some (Entries [tool_call_entry ''Bash'' None ''tu2'' ''t0'', tool_result_entry ''tu2'' [] ''t1''])
   \<and> endsWith_json ''s2.json''
   \<and> calls_closed [tool_call_entry ''Bash'' None ''tu2'' ''t0'', tool_result_entry ''tu2'' [] ''t1'']
   \<and> DAList.lookup (fst (cleanupPendingToolCalls (\<lambda>i. ''t9'') demo_dir)) ''s2.json''
       = Some (Entries [tool_call_entry ''Bash'' None ''tu2'' ''t0'', tool_result_entry ''tu2'' [] ''t1''])
   \<and> ''s2.json'' \<notin> set (snd (cleanupPendingToolCalls (\<lambda>i. ''t9'') demo_dir))"
proof -
  let ?c1 = "[tool_call_entry ''Bash'' None ''tu1'' ''t0'']"
  let ?c2 = "[tool_call_entry ''Bash'' None ''tu2'' ''t0'', tool_result_entry ''tu2'' [] ''t1'']"
  have l1: "DAList.lookup demo_dir ''s1.json'' = Some (Entries ?c1)"
    by (simp add: demo_dir_def)
  have l2: "DAList.lookup demo_dir ''s2.json'' = Some (Entries ?c2)"
    by (simp add: demo_dir_def)
  have j: "endsWith_json ''s1.json''" "endsWith_json ''s2.json''"
    by (simp_all add: endsWith_json_def suffix_def)
  have c: "calls_closed ?c2"
    by (simp add: calls_closed_def tool_call_entry_def tool_result_entry_def new_entry_def)
  note a = cleanup_closes_tool_calls [of demo_dir "''s1.json''" ?c1 "\<lambda>i. ''t9''"]
  note b = cleanup_closes_tool_calls [of demo_dir "''s2.json''" ?c2 "\<lambda>i. ''t9''"]
  from a l1 j have 1: "\<exists>extra.
        DAList.lookup (fst (cleanupPendingToolCalls (\<lambda>i. ''t9'') demo_dir)) ''s1.json''
          = Some (Entries (?c1 @ extra))
        \<and> calls_closed (?c1 @ extra)"
    by blast
  from b l2 j c have "\<exists>extra.
        DAList.lookup (fst (cleanupPendingToolCalls (\<lambda>i. ''t9'') demo_dir)) ''s2.json''
          = Some (Entries (?c2 @ extra))
        \<and> extra = [] \<and> ''s2.json'' \<notin> set (snd (cleanupPendingToolCalls (\<lambda>i. ''t9'') demo_dir))"
    by blast
  then have 2: "DAList.lookup (fst (cleanupPendingToolCalls (\<lambda>i. ''t9'') demo_dir)) ''s2.json''
          = Some (Entries ?c2)"
    and 3: "''s2.json'' \<notin> set (snd (cleanupPendingToolCalls (\<lambda>i. ''t9'') demo_dir))"
    by auto
  from l1 l2 j c 1 2 3 show ?thesis by blast
qed
section \<open>Resolving questions\<close>

lemma distinct_key_once:
  "distinct (map fst xs) \<Longrightarrow> length (filter (\<lambda>e. fst e = k) xs) \<le> 1"
proof (induction xs)
  case Nil
  then show ?case by simp
next
  case (Cons x xs)
  show ?case
  proof (cases "fst x = k")
    case True
    with Cons.prems have "\<forall>e \<in> set xs. fst e \<noteq> k" by (auto simp: image_iff)
    then have "filter (\<lambda>e. fst e = k) xs = []" by (simp add: filter_empty_conv)
    with True show ?thesis by simp
  next
    case False
    with Cons show ?thesis by simp
  qed
qed

text \<open>The first question entry with the given id, marked answered.\<close>

lemma mark_first_Some:
  "i < length es \<Longrightarrow> role (es ! i) = Question \<and> questionId (es ! i) = Some qid \<Longrightarrow>
   (\<forall>j < i. \<not> (role (es ! j) = Question \<and> questionId (es ! j) = Some qid)) \<Longrightarrow>
   mark_first qid es = Some (es[i := (es ! i)\<lparr>answered := Some True\<rparr>])"
proof (induction es arbitrary: i)
  case Nil
  then show ?case by simp
next
  case (Cons e es)
  show ?case
  proof (cases i)
    case 0
    with Cons.prems show ?thesis by simp
  next
    case (Suc i')
    from Cons.prems(3) Suc have "\<not> (role ((e # es) ! 0) = Question \<and> questionId ((e # es) ! 0) = Some qid)"
      by blast
    then have head: "\<not> (role e = Question \<and> questionId e = Some qid)" by simp
    have "\<forall>j < i'. \<not> (role (es ! j) = Question \<and> questionId (es ! j) = Some qid)"
    proof (intro allI impI)
      fix j assume "j < i'"
      then have "Suc j < i" using Suc by simp
      with Cons.prems(3) have "\<not> (role ((e # es) ! Suc j) = Question \<and> questionId ((e # es) ! Suc j) = Some qid)"
        by blast
      then show "\<not> (role (es ! j) = Question \<and> questionId (es ! j) = Some qid)" by simp
    qed
    with Cons.IH [of i'] Cons.prems(1,2) Suc
    have "mark_first qid es = Some (es[i' := (es ! i')\<lparr>answered := Some True\<rparr>])" by simp
    with head Suc show ?thesis by auto
  qed
qed

text \<open>
  What \<open>resolveQuestion\<close> does in every state.  The table of pending questions holds at
  most one entry per question id.  With an id that is not in the table the call changes
  nothing.  With an id in the table it calls that entry's \<open>resolve\<close> once with the answers,
  removes that entry and no other, and, when the session has an id and its history file
  holds a question entry with this question id, sets \<open>answered\<close> on the first such entry.
\<close>

theorem resolve_question:
  "length (filter (\<lambda>e. fst e = qid) (DAList.impl_of (pendingQuestions s))) \<le> 1
   \<and> (DAList.lookup (pendingQuestions s) qid = None \<longrightarrow> resolveQuestion qid ans s = s)
   \<and> (DAList.lookup (pendingQuestions s) qid = Some p \<longrightarrow>
        resolve_calls (resolveQuestion qid ans s) = resolve_calls s @ [(pq_resolve p, ans)]
        \<and> DAList.lookup (pendingQuestions (resolveQuestion qid ans s)) qid = None
        \<and> (\<forall>q. q \<noteq> qid \<longrightarrow>
              DAList.lookup (pendingQuestions (resolveQuestion qid ans s)) q
                = DAList.lookup (pendingQuestions s) q)
        \<and> (\<forall>sid es i.
              sessionId s = Some sid \<and> sid \<noteq> []
              \<and> DAList.lookup (history s) (historyFile sid) = Some (Entries es)
              \<and> i < length es \<and> role (es ! i) = Question \<and> questionId (es ! i) = Some qid
              \<and> (\<forall>j < i. \<not> (role (es ! j) = Question \<and> questionId (es ! j) = Some qid))
              \<longrightarrow> DAList.lookup (history (resolveQuestion qid ans s)) (historyFile sid)
                    = Some (Entries (es[i := (es ! i)\<lparr>answered := Some True\<rparr>]))))"
proof (intro conjI impI allI)
  show "length (filter (\<lambda>e. fst e = qid) (DAList.impl_of (pendingQuestions s))) \<le> 1"
    by (rule distinct_key_once) simp
next
  assume "DAList.lookup (pendingQuestions s) qid = None"
  then show "resolveQuestion qid ans s = s" by (simp add: resolveQuestion_def)
next
  assume "DAList.lookup (pendingQuestions s) qid = Some p"
  then show "resolve_calls (resolveQuestion qid ans s) = resolve_calls s @ [(pq_resolve p, ans)]"
    by (simp add: resolveQuestion_def Let_def)
next
  assume "DAList.lookup (pendingQuestions s) qid = Some p"
  then show "DAList.lookup (pendingQuestions (resolveQuestion qid ans s)) qid = None"
    by (simp add: resolveQuestion_def Let_def)
next
  fix q
  assume "DAList.lookup (pendingQuestions s) qid = Some p" "q \<noteq> qid"
  then show "DAList.lookup (pendingQuestions (resolveQuestion qid ans s)) q
                = DAList.lookup (pendingQuestions s) q"
    by (simp add: resolveQuestion_def Let_def)
next
  fix sid es i
  assume p: "DAList.lookup (pendingQuestions s) qid = Some p"
    and h: "sessionId s = Some sid \<and> sid \<noteq> []
              \<and> DAList.lookup (history s) (historyFile sid) = Some (Entries es)
              \<and> i < length es \<and> role (es ! i) = Question \<and> questionId (es ! i) = Some qid
              \<and> (\<forall>j < i. \<not> (role (es ! j) = Question \<and> questionId (es ! j) = Some qid))"
  from h have "mark_first qid es = Some (es[i := (es ! i)\<lparr>answered := Some True\<rparr>])"
    using mark_first_Some [of i es qid] by blast
  with p h show "DAList.lookup (history (resolveQuestion qid ans s)) (historyFile sid)
                    = Some (Entries (es[i := (es ! i)\<lparr>answered := Some True\<rparr>]))"
    by (simp add: resolveQuestion_def Let_def truthy_str_def or_empty_def markQuestionAnswered_def)
qed


theorem resolve_question_witness:
  "DAList.lookup (pendingQuestions demo_asking) ''q2'' = None
   \<and> resolveQuestion ''q2'' [(''0'', ''yes'')] demo_asking = demo_asking
   \<and> DAList.lookup (pendingQuestions demo_asking) ''q1'' = Some demo_pending
   \<and> resolve_calls (resolveQuestion ''q1'' [(''0'', ''yes'')] demo_asking) = [(7, [(''0'', ''yes'')])]
   \<and> DAList.lookup (pendingQuestions (resolveQuestion ''q1'' [(''0'', ''yes'')] demo_asking)) ''q1'' = None
   \<and> DAList.lookup (history (resolveQuestion ''q1'' [(''0'', ''yes'')] demo_asking)) (historyFile ''s1'')
       = Some (Entries [demo_question\<lparr>answered := Some True\<rparr>])"
proof -
  have u: "DAList.lookup (pendingQuestions demo_asking) ''q2'' = None"
    by (simp add: demo_asking_def new_session_def)
  have k: "DAList.lookup (pendingQuestions demo_asking) ''q1'' = Some demo_pending"
    by (simp add: demo_asking_def new_session_def)
  have c0: "resolve_calls demo_asking = []" "pq_resolve demo_pending = 7"
    by (simp_all add: demo_asking_def new_session_def demo_pending_def)
  have h: "sessionId demo_asking = Some ''s1'' \<and> ''s1'' \<noteq> []
      \<and> DAList.lookup (history demo_asking) (historyFile ''s1'') = Some (Entries [demo_question])
      \<and> 0 < length [demo_question] \<and> role ([demo_question] ! 0) = Question
      \<and> questionId ([demo_question] ! 0) = Some ''q1''
      \<and> (\<forall>j < 0. \<not> (role ([demo_question] ! j) = Question \<and> questionId ([demo_question] ! j) = Some ''q1''))"
    by (simp add: demo_asking_def new_session_def historyFile_def demo_question_def new_entry_def)
  note a = resolve_question [of "''q2''" demo_asking "[(''0'', ''yes'')]" demo_pending]
  note b = resolve_question [of "''q1''" demo_asking "[(''0'', ''yes'')]" demo_pending]
  from a u have 1: "resolveQuestion ''q2'' [(''0'', ''yes'')] demo_asking = demo_asking" by blast
  from b k have 2: "resolve_calls (resolveQuestion ''q1'' [(''0'', ''yes'')] demo_asking)
      = resolve_calls demo_asking @ [(pq_resolve demo_pending, [(''0'', ''yes'')])]"
    and 3: "DAList.lookup (pendingQuestions (resolveQuestion ''q1'' [(''0'', ''yes'')] demo_asking)) ''q1'' = None"
    and 4: "\<forall>sid es i.
              sessionId demo_asking = Some sid \<and> sid \<noteq> []
              \<and> DAList.lookup (history demo_asking) (historyFile sid) = Some (Entries es)
              \<and> i < length es \<and> role (es ! i) = Question \<and> questionId (es ! i) = Some ''q1''
              \<and> (\<forall>j < i. \<not> (role (es ! j) = Question \<and> questionId (es ! j) = Some ''q1''))
              \<longrightarrow> DAList.lookup (history (resolveQuestion ''q1'' [(''0'', ''yes'')] demo_asking)) (historyFile sid)
                    = Some (Entries (es[i := (es ! i)\<lparr>answered := Some True\<rparr>]))"
    by blast+
  from 4 [rule_format, of "''s1''" "[demo_question]" 0] h
  have 5: "DAList.lookup (history (resolveQuestion ''q1'' [(''0'', ''yes'')] demo_asking)) (historyFile ''s1'')
       = Some (Entries [demo_question\<lparr>answered := Some True\<rparr>])"
    by simp
  from u k 1 2 3 5 c0 show ?thesis by simp
qed

text \<open>
  Question ids are counted from \<open>q1\<close> by every \<open>ClaudeSession\<close> object, and a resumed
  session writes to the history file of the session it resumes; so the file can hold
  several question entries with one id.
\<close>

lemma decimal_nat_1: "decimal_nat (Suc 0) = ''1''"
  by code_simp

lemma demo_resumed_state:
  "sessionId demo_resumed = Some ''s1''"
  "resolve_calls demo_resumed = []"
  "DAList.lookup (pendingQuestions demo_resumed) ''q1''
     = Some \<lparr>pq_questionId = ''q1'', pq_resolve = 1,
              pq_questionData = Some (QuestionMsg ''q1'' [] ''s1'')\<rparr>"
  "DAList.lookup (history demo_resumed) (historyFile ''s1'')
     = Some (Entries [demo_question\<lparr>answered := Some True\<rparr>,
                      new_entry User (lit ''more'') ''t1'',
                      demo_question\<lparr>timestamp := ''t3''\<rparr>])"
  by (simp_all add: demo_resumed_def canUseTool_question_def try_block_def create_query_def
      begin_query_def new_session_def demo_answered_def andThen_def append_to_def appendHistory_def
      historyFile_def truthy_str_def or_default_def or_empty_def on_sdk_message_def on_init_def
      send_def Let_def log_history_def decimal_nat_1 demo_question_def new_entry_def lit_def)

text \<open>
  C6.  \<open>resolveQuestion\<close> is to mark the persisted history entry of the question it resolves.
  In the resumed session \<open>demo_resumed\<close> the pending question \<open>q1\<close> has its entry last in
  the history file, not yet answered, behind the answered entry \<open>q1\<close> of the earlier object.
  \<open>resolveQuestion\<close> calls the \<open>resolve\<close> of the pending question and removes it from the
  table, but \<open>markQuestionAnswered\<close> finds the earlier entry: the history file stays as it
  was, and the entry of the question just resolved is still not marked answered.
\<close>

theorem resolve_marks_earlier_entry:
  "DAList.lookup (pendingQuestions demo_resumed) ''q1''
     = Some \<lparr>pq_questionId = ''q1'', pq_resolve = 1,
              pq_questionData = Some (QuestionMsg ''q1'' [] ''s1'')\<rparr>
   \<and> DAList.lookup (history demo_resumed) (historyFile ''s1'')
     = Some (Entries [demo_question\<lparr>answered := Some True\<rparr>,
                      new_entry User (lit ''more'') ''t1'',
                      demo_question\<lparr>timestamp := ''t3''\<rparr>])
   \<and> answered (demo_question\<lparr>timestamp := ''t3''\<rparr>) = None
   \<and> resolve_calls (resolveQuestion ''q1'' [(''0'', ''yes'')] demo_resumed) = [(1, [(''0'', ''yes'')])]
   \<and> DAList.lookup (pendingQuestions (resolveQuestion ''q1'' [(''0'', ''yes'')] demo_resumed)) ''q1''
     = None
   \<and> DAList.lookup (history (resolveQuestion ''q1'' [(''0'', ''yes'')] demo_resumed))
       (historyFile ''s1'')
     = Some (Entries [demo_question\<lparr>answered := Some True\<rparr>,
                      new_entry User (lit ''more'') ''t1'',
                      demo_question\<lparr>timestamp := ''t3''\<rparr>])"
  using demo_resumed_state
  by (simp add: resolveQuestion_def Let_def truthy_str_def or_empty_def markQuestionAnswered_def
      historyFile_def demo_question_def new_entry_def)

section \<open>Stopping tasks\<close>

lemma stopTask_again: "taskId \<in> stoppedTasks s \<Longrightarrow> stopTask taskId s = s"
  by (simp add: stopTask_def)

lemma stopTask_marks: "taskId \<in> stoppedTasks (stopTask taskId s)"
  by (simp add: stopTask_def Let_def)

lemma stopTask_repeat: "(stopTask taskId ^^ Suc n) s = stopTask taskId s"
proof (induction n)
  case 0
  then show ?case by simp
next
  case (Suc n)
  have "(stopTask taskId ^^ Suc (Suc n)) s = stopTask taskId ((stopTask taskId ^^ Suc n) s)" by simp
  also have "\<dots> = stopTask taskId (stopTask taskId s)" by (simp only: Suc)
  also have "\<dots> = stopTask taskId s" by (rule stopTask_again) (rule stopTask_marks)
  finally show ?case .
qed

lemma find_value:
  "find (\<lambda>(a, t). t = k) xs = Some (a', t') \<Longrightarrow> (a', t') \<in> set xs \<and> t' = k"
  by (induction xs) (auto split: if_splits)

lemma find_exists:
  "(a, k) \<in> set xs \<Longrightarrow> \<exists>a'. find (\<lambda>(a, t). t = k) xs = Some (a', k)"
  by (induction xs) auto

lemma lookup_mem: "DAList.lookup m a = Some t \<longleftrightarrow> (a, t) \<in> set (DAList.impl_of m)"
proof -
  have "distinct (map fst (DAList.impl_of m))" by simp
  then have "map_of (DAList.impl_of m) a = Some t \<longleftrightarrow> (a, t) \<in> set (DAList.impl_of m)"
    by (rule map_of_eq_Some_iff)
  then show ?thesis by (simp only: DAList.lookup.rep_eq)
qed

lemma sdkTaskId_for_found:
  assumes "DAList.lookup m agentId = Some taskId"
  shows "DAList.lookup m (sdkTaskId_for taskId m) = Some taskId"
proof -
  from assms have "(agentId, taskId) \<in> set (DAList.impl_of m)" by (simp only: lookup_mem)
  then obtain a' where f: "find (\<lambda>(a, t). t = taskId) (DAList.impl_of m) = Some (a', taskId)"
    using find_exists by fast
  then have "(a', taskId) \<in> set (DAList.impl_of m)" using find_value by fast
  then have "DAList.lookup m a' = Some taskId" by (simp only: lookup_mem)
  moreover have "sdkTaskId_for taskId m = a'" using f by (simp add: sdkTaskId_for_def)
  ultimately show ?thesis by simp
qed

lemma sdkTaskId_for_missing:
  assumes "\<forall>agentId. DAList.lookup m agentId \<noteq> Some taskId"
  shows "sdkTaskId_for taskId m = taskId"
proof (cases "find (\<lambda>(a, t). t = taskId) (DAList.impl_of m)")
  case None
  then show ?thesis by (simp add: sdkTaskId_for_def)
next
  case (Some x)
  obtain a' t' where x: "x = (a', t')" by (cases x)
  with Some have "(a', t') \<in> set (DAList.impl_of m) \<and> t' = taskId" using find_value by fast
  then have "(a', taskId) \<in> set (DAList.impl_of m)" by blast
  then have "DAList.lookup m a' = Some taskId" by (simp only: lookup_mem)
  with assms show ?thesis by blast
qed

text \<open>
  C7.  While a query is active, one or more further calls after the first call of
  \<open>stopTask\<close> with a task id not stopped before leave exactly one request to the SDK: the
  first call issues it, for the agent id mapped to the given tool-use id where the map has
  one and for the given id otherwise.  The first call marks the id as stopped, and a call
  with an id marked as stopped changes nothing.
\<close>

theorem stop_task_once:
  "(taskId \<notin> stoppedTasks s \<and> activeQuery s \<noteq> None \<longrightarrow>
      stopTask_calls ((stopTask taskId ^^ Suc n) s)
        = stopTask_calls s @ [sdkTaskId_for taskId (taskIdToToolUseId s)]
      \<and> ((\<exists>agentId. DAList.lookup (taskIdToToolUseId s) agentId = Some taskId) \<longrightarrow>
            DAList.lookup (taskIdToToolUseId s) (sdkTaskId_for taskId (taskIdToToolUseId s)) = Some taskId)
      \<and> ((\<forall>agentId. DAList.lookup (taskIdToToolUseId s) agentId \<noteq> Some taskId) \<longrightarrow>
            sdkTaskId_for taskId (taskIdToToolUseId s) = taskId))
   \<and> taskId \<in> stoppedTasks (stopTask taskId s)
   \<and> (taskId \<in> stoppedTasks s' \<longrightarrow> stopTask taskId s' = s')"
proof (intro conjI impI)
  assume "taskId \<notin> stoppedTasks s \<and> activeQuery s \<noteq> None"
  then show "stopTask_calls ((stopTask taskId ^^ Suc n) s)
        = stopTask_calls s @ [sdkTaskId_for taskId (taskIdToToolUseId s)]"
    by (simp only: stopTask_repeat) (auto simp: stopTask_def Let_def)
next
  assume "\<exists>agentId. DAList.lookup (taskIdToToolUseId s) agentId = Some taskId"
  then show "DAList.lookup (taskIdToToolUseId s) (sdkTaskId_for taskId (taskIdToToolUseId s)) = Some taskId"
    using sdkTaskId_for_found by blast
next
  assume "\<forall>agentId. DAList.lookup (taskIdToToolUseId s) agentId \<noteq> Some taskId"
  then show "sdkTaskId_for taskId (taskIdToToolUseId s) = taskId"
    by (rule sdkTaskId_for_missing)
next
  show "taskId \<in> stoppedTasks (stopTask taskId s)" by (rule stopTask_marks)
next
  assume "taskId \<in> stoppedTasks s'"
  then show "stopTask taskId s' = s'" by (rule stopTask_again)
qed


theorem stop_task_once_witness:
  "''tu1'' \<notin> stoppedTasks demo_tasks \<and> activeQuery demo_tasks \<noteq> None
   \<and> DAList.lookup (taskIdToToolUseId demo_tasks) ''agent1'' = Some ''tu1''
   \<and> stopTask_calls ((stopTask ''tu1'' ^^ Suc 2) demo_tasks) = [''agent1'']
   \<and> stopTask ''tu1'' (stopTask ''tu1'' demo_tasks) = stopTask ''tu1'' demo_tasks"
proof -
  have p: "''tu1'' \<notin> stoppedTasks demo_tasks" "activeQuery demo_tasks \<noteq> None"
    "stopTask_calls demo_tasks = []"
    by (simp_all add: demo_tasks_def demo_running_def demo_session_def create_query_def
          begin_query_def new_session_def)
  have l: "DAList.lookup (taskIdToToolUseId demo_tasks) ''agent1'' = Some ''tu1''"
    by (simp add: demo_tasks_def)
  have t: "sdkTaskId_for ''tu1'' (taskIdToToolUseId demo_tasks) = ''agent1''"
    by (simp add: demo_tasks_def sdkTaskId_for_def DAList.update.rep_eq DAList.empty.rep_eq)
  note a = stop_task_once [of "''tu1''" demo_tasks 2 "stopTask ''tu1'' demo_tasks"]
  from a p have 1: "stopTask_calls ((stopTask ''tu1'' ^^ Suc 2) demo_tasks)
        = stopTask_calls demo_tasks @ [sdkTaskId_for ''tu1'' (taskIdToToolUseId demo_tasks)]"
    by blast
  from a have 2: "stopTask ''tu1'' (stopTask ''tu1'' demo_tasks) = stopTask ''tu1'' demo_tasks"
    by blast
  from p l t 1 2 show ?thesis by simp
qed

section \<open>Errors in the query loop\<close>

definition ext :: "engine \<Rightarrow> engine \<Rightarrow> bool" where
  "ext s s' =
     (history_kept (history s) (history s')
      \<and> (\<exists>ms. send_calls s' = send_calls s @ ms \<and> (\<forall>m \<in> set ms. \<not> is_error m)))"

lemma history_kept_refl [simp]: "history_kept h h"
  by (simp add: history_kept_def)



lemma ext_refl [simp]: "ext s s"
  by (simp add: ext_def)


lemma ext_same: "history t = history s \<Longrightarrow> send_calls t = send_calls s \<Longrightarrow> ext s t"
  by (simp add: ext_def)


lemma ext_upd [simp]:
  "ext s (t\<lparr>streamingText := a1\<rparr>) = ext s t"
  "ext s (t\<lparr>lastPreview := a2\<rparr>) = ext s t"
  "ext s (t\<lparr>activity_calls := a3\<rparr>) = ext s t"
  "ext s (t\<lparr>currentText := a4\<rparr>) = ext s t"
  "ext s (t\<lparr>activeBashStream := a5\<rparr>) = ext s t"
  "ext s (t\<lparr>backgroundTaskToolUseIds := a6\<rparr>) = ext s t"
  "ext s (t\<lparr>taskIdToToolUseId := a7\<rparr>) = ext s t"
  "ext s (t\<lparr>store_calls := a8\<rparr>) = ext s t"
  "ext s (t\<lparr>sessionId := a9\<rparr>) = ext s t"
  "ext s (t\<lparr>replacesSessionId := b1\<rparr>) = ext s t"
  "ext s (t\<lparr>promptLogged := b2\<rparr>) = ext s t"
  "ext s (t\<lparr>forkFromSessionId := b3\<rparr>) = ext s t"
  "ext s (t\<lparr>activeQuery := b4\<rparr>) = ext s t"
  "ext s (t\<lparr>queries_created := b5\<rparr>) = ext s t"
  "ext s (t\<lparr>abortController := b6\<rparr>) = ext s t"
  "ext s (t\<lparr>isRunning := b7\<rparr>) = ext s t"
  by (simp_all add: ext_def)





lemma chunk_loop_history [simp]: "history (chunk_loop tid out i k s) = history s"
proof (induction tid out i k s rule: chunk_loop.induct)
  case (1 tid out i k s)
  show ?case
  proof (cases "i < length out")
    case True
    with "1.IH" show ?thesis by (subst chunk_loop.simps) (simp add: send_def)
  next
    case False
    then show ?thesis by (subst chunk_loop.simps) simp
  qed
qed





























section \<open>Injected messages\<close>





end
